theory Spec2Isabelle
  imports Main "HOL-Library.Sublist" "HOL-Library.Multiset"
begin

section \<open>Strings of the host language\<close>

text \<open>
  Strings are lists of characters; a character outside ASCII is held as the bytes of
  its UTF-8 form (the prompts of the onboarding flow have some), which leaves the
  occurrences of one string in another where they are. Searching and replacing with a
  string pattern are modelled in full.
\<close>

text \<open>
  \<open>stringIndexOf s p\<close> is the index of the first occurrence of \<open>p\<close> in \<open>s\<close>, the search
  that \<open>String.prototype.includes\<close> and \<open>String.prototype.replace\<close> (with a string
  pattern) both run from index 0.
\<close>

fun stringIndexOf :: "string \<Rightarrow> string \<Rightarrow> nat option" where
  "stringIndexOf [] p = (if p = [] then Some 0 else None)"
| "stringIndexOf (c # cs) p =
     (if prefix p (c # cs) then Some 0 else map_option Suc (stringIndexOf cs p))"

definition includes_str :: "string \<Rightarrow> string \<Rightarrow> bool" where
  "includes_str s p = (stringIndexOf s p \<noteq> None)"

text \<open>
  The replacement text of \<open>String.prototype.replace\<close> is a template: with a string
  pattern there are no captures, so \<open>$$\<close> stands for a dollar sign, \<open>$&\<close> for the matched
  text, \<open>$`\<close> for the text before the match and \<open>$'\<close> for the text after it; every other
  character, a dollar sign before anything else included, stands for itself.
\<close>

fun getSubstitution :: "string \<Rightarrow> string \<Rightarrow> string \<Rightarrow> string \<Rightarrow> string" where
  "getSubstitution matched preceding following [] = []"
| "getSubstitution matched preceding following [c] = [c]"
| "getSubstitution matched preceding following (c # d # ds) =
     (if c = CHR ''$'' \<and> d = CHR ''$'' then
        CHR ''$'' # getSubstitution matched preceding following ds
      else if c = CHR ''$'' \<and> d = CHR ''&'' then
        matched @ getSubstitution matched preceding following ds
      else if c = CHR ''$'' \<and> d = CHR 0x60 then
        preceding @ getSubstitution matched preceding following ds
      else if c = CHR ''$'' \<and> d = CHR 0x27 then
        following @ getSubstitution matched preceding following ds
      else c # getSubstitution matched preceding following (d # ds))"

text \<open>\<open>s.replace(p, r)\<close> for strings \<open>p\<close> and \<open>r\<close>: the first occurrence only.\<close>

definition String_replace :: "string \<Rightarrow> string \<Rightarrow> string \<Rightarrow> string" where
  "String_replace s p r =
     (case stringIndexOf s p of
        None \<Rightarrow> s
      | Some i \<Rightarrow>
          (let preceding = take i s; following = drop (i + length p) s
           in preceding @ getSubstitution p preceding following r @ following))"

section \<open>The host\<close>

text \<open>
  The program runs on a host: the built-in functions of the language and the runtime.
  Case mapping, trimming and the regular expression engine are taken as they are, as
  parameters of the model: \<open>toLowerCase H\<close> and \<open>trim H\<close> are the two string methods, and
  \<open>RegExp_test H pattern input\<close> is the outcome of \<open>new RegExp(pattern, 'i').test(input)\<close>,
  which raises \<open>SyntaxError\<close> when the pattern does not compile. \<open>inherited H key\<close> tells
  whether \<open>key\<close> names a member that every object literal inherits from its prototype
  (\<open>toString\<close>, \<open>constructor\<close>, ...); which names these are is the runtime's.
\<close>

datatype error = SyntaxError | TypeError

record Host =
  toLowerCase :: "string \<Rightarrow> string"
  trim :: "string \<Rightarrow> string"
  RegExp_test :: "string \<Rightarrow> string \<Rightarrow> error + bool"
  inherited :: "string \<Rightarrow> bool"

section \<open>Objects\<close>

text \<open>
  An object written as a literal is the list of its own properties in the order of
  their declaration, with distinct keys; its prototype is the one of all object
  literals. \<open>obj[key]\<close> finds an own property, else an inherited member, else is
  undefined.
\<close>

type_synonym 'v object = "(string \<times> 'v) list"

datatype 'v property = Own 'v | Inherited | Undefined

definition getProperty :: "Host \<Rightarrow> 'v object \<Rightarrow> string \<Rightarrow> 'v property" where
  "getProperty H obj key =
     (case map_of obj key of
        Some v \<Rightarrow> Own v
      | None \<Rightarrow> if inherited H key then Inherited else Undefined)"

text \<open>
  \<open>Object.entries\<close> enumerates the keys that are array indices first, in ascending
  numeric order, and then the other keys in the order of their declaration. An array
  index is the decimal numeral, without leading zero, of a number below \<open>2^32 - 1\<close>.
\<close>

definition isDigit :: "char \<Rightarrow> bool" where
  "isDigit c = (c \<in> set ''0123456789'')"

definition digitValue :: "char \<Rightarrow> int" where
  "digitValue c =
     (case map_of (zip ''0123456789'' [0, 1, 2, 3, 4, 5, 6, 7, 8, 9]) c of
        Some d \<Rightarrow> d
      | None \<Rightarrow> 0)"

definition decimalValue :: "string \<Rightarrow> int" where
  "decimalValue s = foldl (\<lambda>n c. 10 * n + digitValue c) 0 s"

definition isArrayIndex :: "string \<Rightarrow> bool" where
  "isArrayIndex s =
     (s \<noteq> [] \<and> list_all isDigit s \<and> (s = ''0'' \<or> hd s \<noteq> CHR ''0'') \<and>
      decimalValue s \<le> 4294967294)"

definition Object_entries :: "'v object \<Rightarrow> (string \<times> 'v) list" where
  "Object_entries obj =
     sort_key (\<lambda>(key, val). decimalValue key) (filter (\<lambda>(key, val). isArrayIndex key) obj) @
     filter (\<lambda>(key, val). \<not> isArrayIndex key) obj"

section \<open>The transition matcher\<close>

text \<open>
  The loop of \<open>findNextState\<close> over \<open>Object.entries(transitions)\<close>, and after it the
  default \<open>transitions['.*']\<close> (no object inherits a member of that name, so the lookup
  is among the own properties).
\<close>

fun findNextState_from ::
  "Host \<Rightarrow> string \<Rightarrow> string object \<Rightarrow> (string \<times> string) list \<Rightarrow> error + string option" where
  "findNextState_from H userInput transitions [] = Inr (map_of transitions ''.*'')"
| "findNextState_from H userInput transitions ((pattern, targetState) # rest) =
     (case RegExp_test H pattern userInput of
        Inl e \<Rightarrow> Inl e
      | Inr matched \<Rightarrow>
          if matched then Inr (Some targetState)
          else findNextState_from H userInput transitions rest)"

definition findNextState :: "Host \<Rightarrow> string \<Rightarrow> string object \<Rightarrow> error + string option" where
  "findNextState H userInput transitions =
     findNextState_from H userInput transitions (Object_entries transitions)"

section \<open>Flows and sessions\<close>

text \<open>
  \<open>ConversationState\<close> and \<open>ConversationFlow\<close> of the source. The history field
  \<open>context\<close> is named \<open>context'\<close> here. \<open>lastInteraction\<close> is a time in milliseconds.
  \<open>userData\<close> is optional in the source; it is held as the list that \<open>Object.entries\<close>
  gives for it, and a value stands for its string form \<open>String(value)\<close>.
\<close>

type_synonym userData = "(string \<times> string) list"

record ConversationState =
  userId :: string
  context' :: "string list"
  currentTopic :: "string option"
  lastInteraction :: int
  userData :: "userData option"

text \<open>An action mutates the state object it is given.\<close>

type_synonym action = "ConversationState \<Rightarrow> string \<Rightarrow> ConversationState"

record StateDefinition =
  prompt :: string
  transitions :: "string object"
  action :: "action option"

record ConversationFlow =
  name :: string
  triggers :: "string list"
  states :: "StateDefinition object"
  initialState :: string

record Message =
  isFromBot :: bool
  authorId :: string
  content :: string
  channelId :: string

text \<open>
  The bot: the map of sessions by user id, the map of flows by name in insertion order,
  and the messages handed to \<open>sendMessage\<close>, oldest first, each with its channel. The
  content of a message is \<open>None\<close> when the engine hands over \<open>undefined\<close>.
\<close>

record ConversationalBot =
  conversations :: "string \<rightharpoonup> ConversationState"
  flows :: "(string \<times> ConversationFlow) list"
  sent :: "(string \<times> string option) list"

definition sessionTimeout :: int where
  "sessionTimeout = 5 * 60 * 1000"

subsection \<open>The flow registry\<close>

text \<open>\<open>Map.prototype.set\<close> on a map kept in insertion order: a present key keeps its place.\<close>

fun Map_set :: "'k \<Rightarrow> 'v \<Rightarrow> ('k \<times> 'v) list \<Rightarrow> ('k \<times> 'v) list" where
  "Map_set k v [] = [(k, v)]"
| "Map_set k v ((k', v') # m) = (if k' = k then (k, v) # m else (k', v') # Map_set k v m)"

definition createOnboardingFlow :: "Host \<Rightarrow> ConversationFlow" where
  "createOnboardingFlow H = \<lparr>
     name = ''onboarding'',
     triggers = [''hello'', ''hi'', ''start'', ''help''],
     states = [
       (''greeting'', \<lparr>
          prompt = [CHR 0xF0, CHR 0x9F, CHR 0x91, CHR 0x8B] @
            '' Hello! I'm your conversational assistant. What's your name?'',
          transitions = [(''.*'', ''askPurpose'')],
          action = Some (\<lambda>state input. state\<lparr>userData := Some [(''name'', trim H input)]\<rparr>)\<rparr>),
       (''askPurpose'', \<lparr>
          prompt = ''Nice to meet you, {name}! What brings you here today?\<newline>1. Learn about Discord bots\<newline>2. Get help with coding\<newline>3. Just chatting'',
          transitions = [
            (''(1|learn|discord|bot)'', ''botLearning''),
            (''(2|help|coding|code)'', ''codingHelp''),
            (''(3|chat|talk)'', ''casualChat''),
            (''.*'', ''clarifyPurpose'')],
          action = None\<rparr>),
       (''clarifyPurpose'', \<lparr>
          prompt = ''I didn't quite understand. Could you tell me which option you'd prefer? (1, 2, or 3)'',
          transitions = [
            (''(1|learn|discord|bot)'', ''botLearning''),
            (''(2|help|coding|code)'', ''codingHelp''),
            (''(3|chat|talk)'', ''casualChat''),
            (''.*'', ''askPurpose'')],
          action = None\<rparr>),
       (''botLearning'', \<lparr>
          prompt = ''Great! Discord bots are powerful tools. What aspect interests you most?\<newline>'' @
            [CHR 0xE2, CHR 0x80, CHR 0xA2] @ '' Commands and interactions\<newline>'' @
            [CHR 0xE2, CHR 0x80, CHR 0xA2] @ '' Event handling\<newline>'' @
            [CHR 0xE2, CHR 0x80, CHR 0xA2] @ '' API integration'',
          transitions = [
            (''(command|interaction)'', ''commandsInfo''),
            (''(event|handling)'', ''eventsInfo''),
            (''(api|integration)'', ''apiInfo''),
            (''.*'', ''complete'')],
          action = None\<rparr>),
       (''codingHelp'', \<lparr>
          prompt = ''I'd be happy to help with coding! What language are you working with?'',
          transitions = [
            (''(javascript|js|typescript|ts)'', ''jsHelp''),
            (''(python|py)'', ''pythonHelp''),
            (''(deno|rust)'', ''denoRustHelp''),
            (''.*'', ''generalHelp'')],
          action = None\<rparr>),
       (''casualChat'', \<lparr>
          prompt = ''That's nice! What would you like to talk about?'',
          transitions = [(''.*'', ''complete'')],
          action = None\<rparr>),
       (''commandsInfo'', \<lparr>
          prompt = ''Commands are the primary way users interact with bots. You can use prefix commands (!help) or slash commands (/help). Would you like to see an example?'',
          transitions = [
            (''(yes|sure|ok|yeah)'', ''showExample''),
            (''(no|nope)'', ''complete''),
            (''.*'', ''complete'')],
          action = None\<rparr>),
       (''eventsInfo'', \<lparr>
          prompt = ''Event handling allows your bot to respond to various Discord events like messages, reactions, and member joins. Interested in learning more?'',
          transitions = [
            (''(yes|sure|ok|yeah)'', ''showExample''),
            (''(no|nope)'', ''complete''),
            (''.*'', ''complete'')],
          action = None\<rparr>),
       (''apiInfo'', \<lparr>
          prompt = ''The Discord API provides REST endpoints and WebSocket connections for real-time communication. Would you like documentation links?'',
          transitions = [
            (''(yes|sure|ok|yeah)'', ''provideLinks''),
            (''(no|nope)'', ''complete''),
            (''.*'', ''complete'')],
          action = None\<rparr>),
       (''showExample'', \<lparr>
          prompt = ''Here's a simple Deno example:\<newline>```typescript\<newline>bot.events.messageCreate = (bot, message) => {\<newline>  if (message.content === '!ping') {\<newline>    sendMessage(bot, message.channelId, { content: 'Pong!' });\<newline>  }\<newline>};\<newline>```\<newline>Anything else you'd like to know?'',
          transitions = [(''.*'', ''complete'')],
          action = None\<rparr>),
       (''provideLinks'', \<lparr>
          prompt = ''Check out these resources:\<newline>'' @
            [CHR 0xE2, CHR 0x80, CHR 0xA2] @ '' Discordeno: https://deno.land/x/discordeno\<newline>'' @
            [CHR 0xE2, CHR 0x80, CHR 0xA2] @ '' Discord API Docs: https://discord.com/developers/docs\<newline>'' @
            [CHR 0xE2, CHR 0x80, CHR 0xA2] @ '' Deno Deploy: https://deno.com/deploy\<newline>\<newline>Is there anything specific you need help with?'',
          transitions = [(''.*'', ''complete'')],
          action = None\<rparr>),
       (''jsHelp'', \<lparr>
          prompt = ''JavaScript/TypeScript works great with Deno! Are you using Discordeno for Discord?'',
          transitions = [(''.*'', ''complete'')],
          action = None\<rparr>),
       (''pythonHelp'', \<lparr>
          prompt = ''Python is great for Discord bots! Are you familiar with discord.py?'',
          transitions = [(''.*'', ''complete'')],
          action = None\<rparr>),
       (''denoRustHelp'', \<lparr>
          prompt = ''Excellent choice! Deno and Rust are both modern and performant. Which one are you focusing on?'',
          transitions = [(''.*'', ''complete'')],
          action = None\<rparr>),
       (''generalHelp'', \<lparr>
          prompt = ''I can help with various programming concepts. What specific challenge are you facing?'',
          transitions = [(''.*'', ''complete'')],
          action = None\<rparr>),
       (''complete'', \<lparr>
          prompt = ''Thank you for the conversation! Feel free to say 'hi' again anytime you need help. '' @
            [CHR 0xF0, CHR 0x9F, CHR 0x98, CHR 0x8A],
          transitions = [],
          action = None\<rparr>)],
     initialState = ''greeting''\<rparr>"

definition registerConversationFlows :: "Host \<Rightarrow> ConversationalBot \<Rightarrow> ConversationalBot" where
  "registerConversationFlows H self =
     self\<lparr>flows := Map_set ''onboarding'' (createOnboardingFlow H) (flows self)\<rparr>"

subsection \<open>The template interpolator\<close>

definition interpolatePrompt :: "string \<Rightarrow> ConversationState \<Rightarrow> string" where
  "interpolatePrompt prompt' state =
     (case userData state of
        None \<Rightarrow> prompt'
      | Some entries \<Rightarrow>
          foldl (\<lambda>result (key, val). String_replace result (CHR ''{'' # key @ ''}'') val)
            prompt' entries)"

text \<open>
  The engine holds the state it looked up as a value of any type, so the prompt it
  passes is undefined when the value is an inherited member. Then the first
  \<open>result.replace\<close> raises \<open>TypeError\<close>; with no entry to go through, undefined is returned.
\<close>

definition interpolatePrompt_any ::
  "string option \<Rightarrow> ConversationState \<Rightarrow> error + string option" where
  "interpolatePrompt_any prompt' state =
     (case prompt' of
        Some p \<Rightarrow> Inr (Some (interpolatePrompt p state))
      | None \<Rightarrow>
          (case userData state of
             None \<Rightarrow> Inr None
           | Some [] \<Rightarrow> Inr None
           | Some (entry # entries) \<Rightarrow> Inl TypeError))"

subsection \<open>The conversation engine\<close>

text \<open>
  The engine mutates the state object that the map of sessions holds. The key under
  which the map holds the object is passed along as \<open>userId'\<close> (the author of the message
  being handled), and \<open>store\<close> writes a mutation of the object through to the map.
  \<open>sendMessage\<close> records the message; the transport is taken to deliver it, so awaiting
  it neither fails nor lets another handler in: a handler runs to its end.
  The clock is read once for each message and passed as \<open>now\<close>.
  \<open>authorId\<close> is the author's id as the string that \<open>toString\<close> gives.
\<close>

datatype outcome = Done | Raised error

definition sendMessage ::
  "string \<Rightarrow> string option \<Rightarrow> ConversationalBot \<Rightarrow> ConversationalBot" where
  "sendMessage channel body self = self\<lparr>sent := sent self @ [(channel, body)]\<rparr>"

definition store :: "string \<Rightarrow> ConversationState \<Rightarrow> ConversationalBot \<Rightarrow> ConversationalBot" where
  "store userId' state self = self\<lparr>conversations := (conversations self)(userId' \<mapsto> state)\<rparr>"

definition conversations_delete :: "string \<Rightarrow> ConversationalBot \<Rightarrow> ConversationalBot" where
  "conversations_delete userId' self = self\<lparr>conversations := (conversations self)(userId' := None)\<rparr>"

definition isSessionExpired :: "int \<Rightarrow> ConversationState \<Rightarrow> bool" where
  "isSessionExpired now state = (now - lastInteraction state > sessionTimeout)"

definition createConversationState :: "string \<Rightarrow> string \<Rightarrow> int \<Rightarrow> ConversationState" where
  "createConversationState userId' topic now =
     \<lparr>userId = userId', context' = [], currentTopic = Some topic,
      lastInteraction = now, userData = Some []\<rparr>"

definition detectFlow :: "Host \<Rightarrow> string \<Rightarrow> ConversationalBot \<Rightarrow> ConversationFlow option" where
  "detectFlow H content' self =
     (let normalizedContent = trim H (toLowerCase H content')
      in find (\<lambda>flow. list_ex (\<lambda>trigger. includes_str normalizedContent trigger) (triggers flow))
           (map snd (flows self)))"

text \<open>
  The fields that the engine reads from a state it looked up. An inherited member has
  none of them: each read gives undefined.
\<close>

fun prompt_of :: "StateDefinition property \<Rightarrow> string option" where
  "prompt_of (Own stateDef) = Some (prompt stateDef)"
| "prompt_of Inherited = None"
| "prompt_of Undefined = None"

fun action_of :: "StateDefinition property \<Rightarrow> action option" where
  "action_of (Own stateDef) = action stateDef"
| "action_of Inherited = None"
| "action_of Undefined = None"

fun transitions_of :: "StateDefinition property \<Rightarrow> string object option" where
  "transitions_of (Own stateDef) = Some (transitions stateDef)"
| "transitions_of Inherited = None"
| "transitions_of Undefined = None"

definition handleConfusedState ::
  "Message \<Rightarrow> ConversationState \<Rightarrow> ConversationalBot \<Rightarrow> ConversationalBot" where
  "handleConfusedState message state self =
     conversations_delete (userId state)
       (sendMessage (channelId message) (Some ''I'm a bit confused. Let's start over!'') self)"

definition handleInitialState ::
  "Message \<Rightarrow> string \<Rightarrow> ConversationState \<Rightarrow> ConversationFlow \<Rightarrow> StateDefinition property \<Rightarrow>
     ConversationalBot \<Rightarrow> outcome \<times> ConversationalBot" where
  "handleInitialState message userId' state flow currentState self =
     (let state1 = state\<lparr>context' := context' state @ [initialState flow]\<rparr>;
          self1 = store userId' state1 self
      in case interpolatePrompt_any (prompt_of currentState) state1 of
           Inl e \<Rightarrow> (Raised e, self1)
         | Inr body \<Rightarrow> (Done, sendMessage (channelId message) body self1))"

definition handleUnknownInput :: "Message \<Rightarrow> ConversationalBot \<Rightarrow> ConversationalBot" where
  "handleUnknownInput message self =
     sendMessage (channelId message) (Some ''I didn't understand that. Could you rephrase?'') self"

definition transitionToNextState ::
  "Host \<Rightarrow> Message \<Rightarrow> string \<Rightarrow> ConversationState \<Rightarrow> ConversationFlow \<Rightarrow> string \<Rightarrow>
     ConversationalBot \<Rightarrow> outcome \<times> ConversationalBot" where
  "transitionToNextState H message userId' state flow nextStateName self =
     (let state1 = state\<lparr>context' := context' state @ [nextStateName]\<rparr>;
          self1 = store userId' state1 self
      in case getProperty H (states flow) nextStateName of
           Undefined \<Rightarrow> (Done, self1)
         | nextState \<Rightarrow>
             (case interpolatePrompt_any (prompt_of nextState) state1 of
                Inl e \<Rightarrow> (Raised e, self1)
              | Inr body \<Rightarrow>
                  (let self2 = sendMessage (channelId message) body self1
                   in if nextStateName = ''complete'' then
                        (Done, conversations_delete (userId state1) self2)
                      else (Done, self2))))"

text \<open>
  The action runs first, on the raw content. \<open>findNextState\<close> starts with
  \<open>Object.entries(transitions)\<close>, which raises \<open>TypeError\<close> on undefined. A target that is
  the empty string is not a next state: the test \<open>if (nextStateName)\<close> of the source
  fails on it.
\<close>

definition processUserInput ::
  "Host \<Rightarrow> Message \<Rightarrow> string \<Rightarrow> ConversationState \<Rightarrow> ConversationFlow \<Rightarrow>
     StateDefinition property \<Rightarrow> ConversationalBot \<Rightarrow> outcome \<times> ConversationalBot" where
  "processUserInput H message userId' state flow currentState self =
     (let userInput = trim H (toLowerCase H (content message));
          state1 = (case action_of currentState of
                      None \<Rightarrow> state
                    | Some act \<Rightarrow> act state (content message));
          self1 = store userId' state1 self
      in case transitions_of currentState of
           None \<Rightarrow> (Raised TypeError, self1)
         | Some transitions' \<Rightarrow>
             (case findNextState H userInput transitions' of
                Inl e \<Rightarrow> (Raised e, self1)
              | Inr None \<Rightarrow> (Done, handleUnknownInput message self1)
              | Inr (Some nextStateName) \<Rightarrow>
                  if nextStateName \<noteq> [] then
                    transitionToNextState H message userId' state1 flow nextStateName self1
                  else (Done, handleUnknownInput message self1)))"

text \<open>
  The current state name is \<open>state.context[state.context.length - 1] || flow.initialState\<close>:
  the initial state when the history is empty, and also when its last entry is the empty
  string.
\<close>

definition currentStateName :: "ConversationState \<Rightarrow> ConversationFlow \<Rightarrow> string" where
  "currentStateName state flow =
     (if context' state = [] \<or> last (context' state) = [] then initialState flow
      else last (context' state))"

definition processConversation ::
  "Host \<Rightarrow> int \<Rightarrow> Message \<Rightarrow> string \<Rightarrow> ConversationState \<Rightarrow> ConversationFlow \<Rightarrow>
     ConversationalBot \<Rightarrow> outcome \<times> ConversationalBot" where
  "processConversation H now message userId' state flow self =
     (let state1 = state\<lparr>lastInteraction := now\<rparr>;
          self1 = store userId' state1 self
      in case getProperty H (states flow) (currentStateName state1 flow) of
           Undefined \<Rightarrow> (Done, handleConfusedState message state1 self1)
         | currentState \<Rightarrow>
             if context' state1 = [] then
               handleInitialState message userId' state1 flow currentState self1
             else processUserInput H message userId' state1 flow currentState self1)"

definition handleNewConversation ::
  "Host \<Rightarrow> int \<Rightarrow> Message \<Rightarrow> string \<Rightarrow> ConversationalBot \<Rightarrow> outcome \<times> ConversationalBot" where
  "handleNewConversation H now message userId' self =
     (case detectFlow H (content message) self of
        None \<Rightarrow> (Done, self)
      | Some flow \<Rightarrow>
          (let state = createConversationState userId' (name flow) now
           in processConversation H now message userId' state flow (store userId' state self)))"

definition handleExistingConversation ::
  "Host \<Rightarrow> int \<Rightarrow> Message \<Rightarrow> string \<Rightarrow> ConversationState \<Rightarrow> ConversationalBot \<Rightarrow>
     outcome \<times> ConversationalBot" where
  "handleExistingConversation H now message userId' state self =
     (case currentTopic state of
        None \<Rightarrow> (Done, self)
      | Some flowName \<Rightarrow>
          if flowName = [] then (Done, self)
          else (case map_of (flows self) flowName of
                  None \<Rightarrow> (Done, self)
                | Some flow \<Rightarrow> processConversation H now message userId' state flow self))"

definition handleMessage ::
  "Host \<Rightarrow> int \<Rightarrow> Message \<Rightarrow> ConversationalBot \<Rightarrow> outcome \<times> ConversationalBot" where
  "handleMessage H now message self =
     (if isFromBot message then (Done, self)
      else (let userId' = authorId message
            in case conversations self userId' of
                 None \<Rightarrow> handleNewConversation H now message userId' self
               | Some state \<Rightarrow>
                   if isSessionExpired now state then
                     handleNewConversation H now message userId' self
                   else handleExistingConversation H now message userId' state self))"

section \<open>Templates as token lists\<close>

text \<open>
  A way to write down a well-formed template, used to state when rendering does not
  depend on the order of the data: a template is the concatenation of text and
  placeholders. It is flat when no text contains an opening brace and no placeholder
  name contains a brace. A key is plain when it contains no brace; a value is plain when
  it contains neither an opening brace nor a dollar sign.
\<close>

datatype token = Text string | Placeholder string

fun template_of :: "token list \<Rightarrow> string" where
  "template_of [] = []"
| "template_of (Text s # ts) = s @ template_of ts"
| "template_of (Placeholder k # ts) = CHR ''{'' # k @ ''}'' @ template_of ts"

definition plain_key :: "string \<Rightarrow> bool" where
  "plain_key k = (CHR ''{'' \<notin> set k \<and> CHR ''}'' \<notin> set k)"

definition plain_value :: "string \<Rightarrow> bool" where
  "plain_value v = (CHR ''{'' \<notin> set v \<and> CHR ''$'' \<notin> set v)"

fun flat :: "token list \<Rightarrow> bool" where
  "flat [] = True"
| "flat (Text s # ts) = (CHR ''{'' \<notin> set s \<and> flat ts)"
| "flat (Placeholder k # ts) = (plain_key k \<and> flat ts)"

text \<open>\<open>fill_first k v ts\<close> puts the text \<open>v\<close> in the place of the first placeholder \<open>k\<close>.\<close>

fun fill_first :: "string \<Rightarrow> string \<Rightarrow> token list \<Rightarrow> token list" where
  "fill_first k v [] = []"
| "fill_first k v (Text s # ts) = Text s # fill_first k v ts"
| "fill_first k v (Placeholder k' # ts) =
     (if k' = k then Text v # ts else Placeholder k' # fill_first k v ts)"

text \<open>All the entries of the data, one after the other.\<close>

definition fill_all :: "(string \<times> string) list \<Rightarrow> token list \<Rightarrow> token list" where
  "fill_all d ts = fold (\<lambda>(k, v). fill_first k v) d ts"

section \<open>Flows whose actions keep to the user data\<close>

text \<open>
  An action is given the whole state object. The flows this development reasons about
  are those whose actions change nothing of it but \<open>userData\<close>, as the action of the
  onboarding flow does.
\<close>

definition actions_ok :: "ConversationFlow \<Rightarrow> bool" where
  "actions_ok flow =
     (\<forall>(stateName, stateDef)\<in>set (states flow).
        \<forall>act. action stateDef = Some act \<longrightarrow>
          (\<forall>state input. act state input = state\<lparr>userData := userData (act state input)\<rparr>))"

text \<open>
  The sweep that the bot runs every minute: every session idle for longer than the
  timeout is deleted.
\<close>

definition cleanupExpiredSessions :: "int \<Rightarrow> ConversationalBot \<Rightarrow> ConversationalBot" where
  "cleanupExpiredSessions now self =
     self\<lparr>conversations := (\<lambda>userId'.
       case conversations self userId' of
         None \<Rightarrow> None
       | Some state \<Rightarrow>
           if now - lastInteraction state > sessionTimeout then None else Some state)\<rparr>"

text \<open>
  The events of a run, each with the time at which it is handled: a message, or a tick
  of the sweep. The handler of an event runs to its end before the next event is
  handled; what the handler of a message raises does not stop the bot.
\<close>

datatype event = MessageCreate int Message | CleanupTick int

fun handleEvents :: "Host \<Rightarrow> event list \<Rightarrow> ConversationalBot \<Rightarrow> ConversationalBot" where
  "handleEvents H [] self = self"
| "handleEvents H (MessageCreate now message # rest) self =
     handleEvents H rest (snd (handleMessage H now message self))"
| "handleEvents H (CleanupTick now # rest) self =
     handleEvents H rest (cleanupExpiredSessions now self)"

text \<open>
  \<open>in_time since events\<close>: no event of the run is handled later than the session timeout
  after the message before it, the first ones no later than the timeout after \<open>since\<close>.
\<close>

fun in_time :: "int \<Rightarrow> event list \<Rightarrow> bool" where
  "in_time since [] = True"
| "in_time since (MessageCreate now message # rest) =
     (now - since \<le> sessionTimeout \<and> in_time now rest)"
| "in_time since (CleanupTick now # rest) =
     (now - since \<le> sessionTimeout \<and> in_time since rest)"

text \<open>The messages of a run.\<close>

fun messages_of :: "event list \<Rightarrow> Message list" where
  "messages_of [] = []"
| "messages_of (MessageCreate now message # rest) = message # messages_of rest"
| "messages_of (CleanupTick now # rest) = messages_of rest"

section \<open>A host for ASCII text and a fragment of the pattern language\<close>

text \<open>
  What the two string methods do on ASCII strings, and what the regular expression
  engine does, with the flag \<open>i\<close>, on ASCII input and on the patterns of a fragment of the
  pattern language: literal characters, the dot, the star, alternation and groups,
  which is what the flows of the source use. \<open>host_ok H\<close> says that the host \<open>H\<close> behaves
  so on these strings and patterns; it says nothing of \<open>H\<close> on any other. \<open>ascii_host\<close> is
  one such host, on which the instances below run the engine: it refuses every pattern
  outside the fragment.
\<close>

definition ascii :: "string \<Rightarrow> bool" where
  "ascii s = list_all (\<lambda>c. (of_char c :: nat) < 128) s"

definition ascii_toLowerCase_char :: "char \<Rightarrow> char" where
  "ascii_toLowerCase_char c =
     (case map_of (zip ''ABCDEFGHIJKLMNOPQRSTUVWXYZ'' ''abcdefghijklmnopqrstuvwxyz'') c of
        Some d \<Rightarrow> d
      | None \<Rightarrow> c)"

definition ascii_toUpperCase_char :: "char \<Rightarrow> char" where
  "ascii_toUpperCase_char c =
     (case map_of (zip ''abcdefghijklmnopqrstuvwxyz'' ''ABCDEFGHIJKLMNOPQRSTUVWXYZ'') c of
        Some d \<Rightarrow> d
      | None \<Rightarrow> c)"

definition ascii_toLowerCase :: "string \<Rightarrow> string" where
  "ascii_toLowerCase s = map ascii_toLowerCase_char s"

definition isWhiteSpace :: "char \<Rightarrow> bool" where
  "isWhiteSpace c = (c \<in> set [CHR 0x09, CHR 0x0A, CHR 0x0B, CHR 0x0C, CHR 0x0D, CHR 0x20])"

definition ascii_trim :: "string \<Rightarrow> string" where
  "ascii_trim s = rev (dropWhile isWhiteSpace (rev (dropWhile isWhiteSpace s)))"

datatype regex =
    Never
  | Empty
  | Lit char
  | AnyChar
  | Seq regex regex
  | Alt regex regex
  | Star regex

type_synonym frame = "regex list \<times> regex list"

definition seq_of :: "regex list \<Rightarrow> regex" where
  "seq_of items = foldl (\<lambda>acc r. Seq r acc) Empty items"

definition close_frame :: "frame \<Rightarrow> regex" where
  "close_frame fr = foldl (\<lambda>acc a. Alt a acc) (seq_of (snd fr)) (fst fr)"

fun is_Star :: "regex \<Rightarrow> bool" where
  "is_Star (Star r) = True"
| "is_Star r = False"

text \<open>
  One pass over the pattern. The current frame holds the finished alternatives of the
  innermost open group and the items of the alternative being read, both latest first;
  the stack holds the frames of the enclosing groups. The result is \<open>None\<close> for a pattern
  that is not a well-formed pattern of the fragment.
\<close>

fun parse :: "string \<Rightarrow> frame \<Rightarrow> frame list \<Rightarrow> regex option" where
  "parse [] cur stack = (if stack = [] then Some (close_frame cur) else None)"
| "parse (c # cs) cur stack =
     (if c = CHR ''('' then parse cs ([], []) (cur # stack)
      else if c = CHR '')'' then
        (case stack of
           [] \<Rightarrow> None
         | parent # outer \<Rightarrow> parse cs (fst parent, close_frame cur # snd parent) outer)
      else if c = CHR ''|'' then parse cs (seq_of (snd cur) # fst cur, []) stack
      else if c = CHR ''*'' then
        (case snd cur of
           [] \<Rightarrow> None
         | r # rs \<Rightarrow> if is_Star r then None else parse cs (fst cur, Star r # rs) stack)
      else if c = CHR ''.'' then parse cs (fst cur, AnyChar # snd cur) stack
      else if c \<in> set (CHR 0x5C # ''[]{}^$+?'') then None
      else parse cs (fst cur, Lit c # snd cur) stack)"

definition fragment_RegExp :: "string \<Rightarrow> regex option" where
  "fragment_RegExp pattern = parse pattern ([], []) []"

text \<open>
  Matching by derivatives. With the flag \<open>i\<close> two ASCII characters match when their
  upper-case forms agree; the dot matches every character but a line terminator.
\<close>

definition isLineTerminator :: "char \<Rightarrow> bool" where
  "isLineTerminator c = (c = CHR 0x0A \<or> c = CHR 0x0D)"

fun nullable :: "regex \<Rightarrow> bool" where
  "nullable Never = False"
| "nullable Empty = True"
| "nullable (Lit c) = False"
| "nullable AnyChar = False"
| "nullable (Seq r s) = (nullable r \<and> nullable s)"
| "nullable (Alt r s) = (nullable r \<or> nullable s)"
| "nullable (Star r) = True"

fun deriv :: "char \<Rightarrow> regex \<Rightarrow> regex" where
  "deriv c Never = Never"
| "deriv c Empty = Never"
| "deriv c (Lit d) = (if ascii_toUpperCase_char c = ascii_toUpperCase_char d then Empty else Never)"
| "deriv c AnyChar = (if isLineTerminator c then Never else Empty)"
| "deriv c (Seq r s) =
     (if nullable r then Alt (Seq (deriv c r) s) (deriv c s) else Seq (deriv c r) s)"
| "deriv c (Alt r s) = Alt (deriv c r) (deriv c s)"
| "deriv c (Star r) = Seq (deriv c r) (Star r)"

text \<open>\<open>matchesAt r s\<close>: some prefix of \<open>s\<close> matches \<open>r\<close>.\<close>

fun matchesAt :: "regex \<Rightarrow> string \<Rightarrow> bool" where
  "matchesAt r [] = nullable r"
| "matchesAt r (c # cs) = (nullable r \<or> matchesAt (deriv c r) cs)"

text \<open>\<open>regex.test(s)\<close> of an unanchored pattern: a match may start at any index.\<close>

fun regex_test :: "regex \<Rightarrow> string \<Rightarrow> bool" where
  "regex_test r [] = matchesAt r []"
| "regex_test r (c # cs) = (matchesAt r (c # cs) \<or> regex_test r cs)"


text \<open>\<open>fragment_test pattern input\<close>: the result of the test, for a pattern of the fragment.\<close>

definition fragment_test :: "string \<Rightarrow> string \<Rightarrow> bool option" where
  "fragment_test pattern input = map_option (\<lambda>r. regex_test r input) (fragment_RegExp pattern)"

definition host_ok :: "Host \<Rightarrow> bool" where
  "host_ok H =
     ((\<forall>s. ascii s \<longrightarrow> toLowerCase H s = ascii_toLowerCase s \<and> trim H s = ascii_trim s) \<and>
      (\<forall>pattern input matched.
         ascii pattern \<and> ascii input \<and> fragment_test pattern input = Some matched \<longrightarrow>
           RegExp_test H pattern input = Inr matched))"

text \<open>The names of the members of \<open>Object.prototype\<close>.\<close>

definition Object_prototype_names :: "string list" where
  "Object_prototype_names =
     [''constructor'', ''__defineGetter__'', ''__defineSetter__'', ''hasOwnProperty'',
      ''__lookupGetter__'', ''__lookupSetter__'', ''isPrototypeOf'', ''propertyIsEnumerable'',
      ''toString'', ''valueOf'', ''__proto__'', ''toLocaleString'']"

definition ascii_host :: Host where
  "ascii_host =
     \<lparr>toLowerCase = ascii_toLowerCase,
      trim = ascii_trim,
      RegExp_test = (\<lambda>pattern input.
        case fragment_test pattern input of
          Some matched \<Rightarrow> Inr matched
        | None \<Rightarrow> Inl SyntaxError),
      inherited = (\<lambda>key. key \<in> set Object_prototype_names)\<rparr>"

section \<open>A bot, a second flow and sessions to run the engine on\<close>

text \<open>
  The bot as its constructor leaves it: no session, the onboarding flow registered,
  nothing sent.
\<close>

definition ConversationalBot_new :: "Host \<Rightarrow> ConversationalBot" where
  "ConversationalBot_new H =
     registerConversationFlows H \<lparr>conversations = Map.empty, flows = [], sent = []\<rparr>"

text \<open>
  A flow with a state that has no transition and is not named \<open>complete\<close>, with
  transitions whose targets are not states of the flow (a name that is no key of
  \<open>states\<close>, the name of an inherited member, and the empty string), and with a state
  whose pattern is a single dot, which no empty input matches.
\<close>

definition feedbackFlow :: ConversationFlow where
  "feedbackFlow = \<lparr>
     name = ''feedback'',
     triggers = [''feedback''],
     states = [
       (''rate'', \<lparr>
          prompt = ''How was it?'',
          transitions = [(''(good|great)'', ''thanks''), (''bad'', ''apology''),
            (''odd'', ''toString''), (''skip'', []), (''fine'', ''comment'')],
          action = Some (\<lambda>state input. state\<lparr>userData := Some [(''answer'', input)]\<rparr>)\<rparr>),
       (''thanks'', \<lparr>
          prompt = ''Glad to hear it: {answer}.'',
          transitions = [],
          action = None\<rparr>),
       (''comment'', \<lparr>
          prompt = ''Any comment?'',
          transitions = [(''.'', ''thanks'')],
          action = None\<rparr>)],
     initialState = ''rate''\<rparr>"

definition userMessage :: "string \<Rightarrow> string \<Rightarrow> Message" where
  "userMessage author body =
     \<lparr>isFromBot = False, authorId = author, content = body, channelId = ''general''\<rparr>"

definition sessionAt :: "string \<Rightarrow> string \<Rightarrow> string list \<Rightarrow> int \<Rightarrow> ConversationState" where
  "sessionAt author topic history time =
     \<lparr>userId = author, context' = history, currentTopic = Some topic,
      lastInteraction = time, userData = Some []\<rparr>"

definition withSession :: "ConversationState \<Rightarrow> ConversationalBot \<Rightarrow> ConversationalBot" where
  "withSession state self = store (userId state) state self"

definition withFlow :: "ConversationFlow \<Rightarrow> ConversationalBot \<Rightarrow> ConversationalBot" where
  "withFlow flow self = self\<lparr>flows := Map_set (name flow) flow (flows self)\<rparr>"

section \<open>Properties of objects and of the transition matcher\<close>

lemma Object_entries_plain:
  "\<forall>key\<in>fst ` set obj. \<not> isArrayIndex key \<Longrightarrow> Object_entries obj = obj"
proof -
  assume a: "\<forall>key\<in>fst ` set obj. \<not> isArrayIndex key"
  then have "filter (\<lambda>(key, val). isArrayIndex key) obj = []"
    by (auto simp: filter_empty_conv)
  moreover from a have "filter (\<lambda>(key, val). \<not> isArrayIndex key) obj = obj"
    by (auto simp: filter_id_conv)
  ultimately show ?thesis by (simp add: Object_entries_def)
qed

lemma getProperty_Own: "map_of obj key = Some v \<Longrightarrow> getProperty H obj key = Own v"
  by (simp add: getProperty_def)

lemma getProperty_Own_iff: "getProperty H obj key = Own v \<longleftrightarrow> map_of obj key = Some v"
  by (simp add: getProperty_def split: option.splits)

lemma getProperty_Undefined_iff:
  "getProperty H obj key = Undefined \<longleftrightarrow> map_of obj key = None \<and> \<not> inherited H key"
  by (simp add: getProperty_def split: option.splits)

lemma findNextState_from_skip:
  "\<forall>q\<in>fst ` set pre. RegExp_test H q userInput = Inr False \<Longrightarrow>
   findNextState_from H userInput ts (pre @ rest) = findNextState_from H userInput ts rest"
  by (induction pre) auto

lemma findNextState_from_hit:
  "RegExp_test H p userInput = Inr True \<Longrightarrow>
   findNextState_from H userInput ts ((p, t) # post) = Inr (Some t)"
  by simp

lemma mset_Object_entries: "mset (Object_entries obj) = mset obj"
  by (simp add: Object_entries_def)

lemma set_Object_entries: "set (Object_entries obj) = set obj"
  using mset_Object_entries [of obj] by (rule mset_eq_setD)

lemma findNextState_first:
  assumes "Object_entries ts = pre @ (p, t) # post"
    and "\<forall>q\<in>fst ` set pre. RegExp_test H q userInput = Inr False"
    and "RegExp_test H p userInput = Inr True"
  shows "findNextState H userInput ts = Inr (Some t)"
  unfolding findNextState_def assms(1)
  using findNextState_from_skip [OF assms(2)] findNextState_from_hit [OF assms(3)] by simp

lemma findNextState_none:
  assumes "\<forall>q\<in>fst ` set ts. RegExp_test H q userInput = Inr False"
  shows "findNextState H userInput ts = Inr (map_of ts ''.*'')"
proof -
  from assms have "\<forall>q\<in>fst ` set (Object_entries ts). RegExp_test H q userInput = Inr False"
    by (simp add: set_Object_entries)
  from findNextState_from_skip [OF this, of ts "[]"]
  show ?thesis by (simp add: findNextState_def)
qed

lemma findNextState_catch_all:
  assumes d: "distinct (map fst ts)" and m: "(''.*'', t) \<in> set ts"
    and c: "RegExp_test H ''.*'' userInput = Inr matched"
    and o: "\<forall>q\<in>fst ` set ts. q \<noteq> ''.*'' \<longrightarrow> RegExp_test H q userInput = Inr False"
  shows "findNextState H userInput ts = Inr (Some t)"
proof (cases matched)
  case True
  from m have "\<exists>e\<in>set (Object_entries ts). fst e = ''.*''"
    unfolding set_Object_entries by (intro bexI [of _ "(''.*'', t)"]) simp_all
  then have "\<exists>pre e post. Object_entries ts = pre @ e # post \<and> fst e = ''.*'' \<and>
      (\<forall>y\<in>set pre. \<not> fst y = ''.*'')"
    by (rule split_list_first_prop)
  then obtain pre e post where sp: "Object_entries ts = pre @ e # post" "fst e = ''.*''"
    "\<forall>y\<in>set pre. fst y \<noteq> ''.*''"
    by blast
  from sp(1) have "e \<in> set ts" "set pre \<subseteq> set ts"
    using set_Object_entries [of ts] by auto
  with sp(2) have "(''.*'', snd e) \<in> set ts" by (cases e) simp
  with d m have "snd e = t" by (auto dest: eq_key_imp_eq_value)
  with sp(2) have e: "e = (''.*'', t)" by (cases e) simp
  from \<open>set pre \<subseteq> set ts\<close> sp(3) o
  have "\<forall>q\<in>fst ` set pre. RegExp_test H q userInput = Inr False" by auto
  with c True sp(1) show ?thesis
    unfolding e by (intro findNextState_first) simp_all
next
  case False
  with c o have "\<forall>q\<in>fst ` set ts. RegExp_test H q userInput = Inr False" by auto
  from findNextState_none [OF this] d m show ?thesis by simp
qed

lemma host_ok_test:
  "host_ok H \<Longrightarrow> ascii pattern \<Longrightarrow> ascii input \<Longrightarrow> fragment_test pattern input = Some matched \<Longrightarrow>
   RegExp_test H pattern input = Inr matched"
  by (simp add: host_ok_def)

lemma host_ok_normalise:
  "host_ok H \<Longrightarrow> ascii s \<Longrightarrow> ascii (ascii_toLowerCase s) \<Longrightarrow>
   trim H (toLowerCase H s) = ascii_trim (ascii_toLowerCase s)"
  by (simp add: host_ok_def)

lemma host_ok_ascii_host: "host_ok ascii_host"
  by (auto simp: host_ok_def ascii_host_def)

text \<open>The table of claim C1 on a host that is right on ASCII text.\<close>

lemma claim_table:
  assumes h: "host_ok H"
    and s: "ascii s" "ascii (ascii_toLowerCase s)" "ascii_trim (ascii_toLowerCase s) = u" "ascii u"
    and p: "ascii ''(1|yes)''" "ascii ''.*''"
    and e: "Object_entries [(''(1|yes)'', ''A''), (''.*'', ''B'')] =
      [(''(1|yes)'', ''A''), (''.*'', ''B'')]"
    and f: "fragment_test ''(1|yes)'' u = Some b" "fragment_test ''.*'' u = Some True"
  shows "findNextState H (trim H (toLowerCase H s)) [(''(1|yes)'', ''A''), (''.*'', ''B'')] =
    Inr (Some (if b then ''A'' else ''B''))"
proof -
  have n: "trim H (toLowerCase H s) = u"
    using host_ok_normalise [OF h s(1,2)] s(3) by simp
  have 1: "RegExp_test H ''(1|yes)'' u = Inr b" by (rule host_ok_test [OF h p(1) s(4) f(1)])
  have 2: "RegExp_test H ''.*'' u = Inr True" by (rule host_ok_test [OF h p(2) s(4) f(2)])
  show ?thesis
    unfolding n findNextState_def e using 1 2 by simp
qed


section \<open>Properties of the template interpolator\<close>

lemma getSubstitution_plain:
  "CHR ''$'' \<notin> set r \<Longrightarrow> getSubstitution m b a r = r"
  by (induction m b a r rule: getSubstitution.induct) auto

lemma stringIndexOf_split:
  "stringIndexOf s p = Some i \<Longrightarrow> s = take i s @ p @ drop (i + length p) s"
proof (induction s arbitrary: i)
  case Nil
  then show ?case by (simp split: if_splits)
next
  case (Cons c cs)
  show ?case
  proof (cases "prefix p (c # cs)")
    case True
    with Cons.prems have "i = 0" by simp
    with True show ?thesis by (auto simp: prefix_def)
  next
    case False
    with Cons.prems obtain j where j: "stringIndexOf cs p = Some j" "i = Suc j" by auto
    from Cons.IH [OF j(1)] j(2) show ?thesis by simp
  qed
qed

lemma stringIndexOf_prefix: "prefix p s \<Longrightarrow> stringIndexOf s p = Some 0"
  by (cases s) auto

lemma includes_str_iff: "includes_str s p \<longleftrightarrow> (\<exists>u w. s = u @ p @ w)"
proof
  assume "includes_str s p"
  then obtain i where "stringIndexOf s p = Some i" by (auto simp: includes_str_def)
  from stringIndexOf_split [OF this] show "\<exists>u w. s = u @ p @ w" by blast
next
  assume "\<exists>u w. s = u @ p @ w"
  then obtain u w where "s = u @ p @ w" by blast
  then show "includes_str s p"
  proof (induction u arbitrary: s)
    case Nil
    then show ?case by (simp add: includes_str_def stringIndexOf_prefix)
  next
    case (Cons c u)
    then show ?case by (auto simp: includes_str_def)
  qed
qed

lemma String_replace_absent: "\<not> includes_str s p \<Longrightarrow> String_replace s p r = s"
  by (simp add: includes_str_def String_replace_def)

lemma String_replace_Nil: "p \<noteq> [] \<Longrightarrow> String_replace [] p r = []"
  by (simp add: String_replace_def)

lemma String_replace_Cons:
  assumes "CHR ''$'' \<notin> set v"
  shows "String_replace (c # cs) p v =
    (if prefix p (c # cs) then v @ drop (length p) (c # cs) else c # String_replace cs p v)"
  using assms by (auto simp: String_replace_def getSubstitution_plain Let_def split: option.splits)

lemma replace_skip_text:
  "CHR ''{'' \<notin> set s \<Longrightarrow> CHR ''$'' \<notin> set v \<Longrightarrow>
   String_replace (s @ rest) (CHR ''{'' # k) v = s @ String_replace rest (CHR ''{'' # k) v"
  by (induction s) (auto simp: String_replace_Cons)

lemma snoc_prefix_eq:
  "prefix (a @ [x]) (b @ x # rest) \<Longrightarrow> x \<notin> set a \<Longrightarrow> x \<notin> set b \<Longrightarrow> a = b"
proof (induction a arbitrary: b)
  case Nil
  then show ?case by (cases b) auto
next
  case (Cons c a)
  then show ?case by (cases b) auto
qed

lemma prefix_placeholder:
  assumes "plain_key k" "plain_key k'"
  shows "prefix (CHR ''{'' # k @ ''}'') (CHR ''{'' # k' @ ''}'' @ rest) \<longleftrightarrow> k = k'"
  using assms snoc_prefix_eq [of k "CHR ''}''" k' rest]
  by (auto simp: plain_key_def)

lemma replace_placeholder_same:
  "CHR ''$'' \<notin> set v \<Longrightarrow>
   String_replace (CHR ''{'' # k @ ''}'' @ rest) (CHR ''{'' # k @ ''}'') v = v @ rest"
  by (simp add: String_replace_Cons)

lemma replace_placeholder_other:
  assumes "plain_key k" "plain_key k'" "k' \<noteq> k" "CHR ''$'' \<notin> set v"
  shows "String_replace (CHR ''{'' # k' @ ''}'' @ rest) (CHR ''{'' # k @ ''}'') v =
    CHR ''{'' # k' @ ''}'' @ String_replace rest (CHR ''{'' # k @ ''}'') v"
proof -
  have np: "\<not> prefix (CHR ''{'' # k @ ''}'') (CHR ''{'' # k' @ ''}'' @ rest)"
    using prefix_placeholder [OF assms(1,2)] assms(3) by auto
  have "CHR ''{'' \<notin> set (k' @ ''}'')" using assms(2) by (simp add: plain_key_def)
  from replace_skip_text [OF this assms(4), of rest "k @ ''}''"] np assms(4)
  show ?thesis by (simp add: String_replace_Cons)
qed

lemma replace_template_of:
  assumes "flat ts" "plain_key k" "plain_value v"
  shows "String_replace (template_of ts) (CHR ''{'' # k @ ''}'') v = template_of (fill_first k v ts)"
  using assms(1)
proof (induction ts rule: flat.induct)
  case 1
  then show ?case by (simp add: String_replace_Nil)
next
  case (2 s ts)
  with assms(3) show ?case
    by (simp add: replace_skip_text plain_value_def)
next
  case (3 k' ts)
  with assms(2,3) show ?case
    using replace_placeholder_other [of k k' v "template_of ts"]
      replace_placeholder_same [of v k' "template_of ts"]
    by (auto simp: plain_value_def)
qed

lemma flat_fill_first: "flat ts \<Longrightarrow> plain_value v \<Longrightarrow> flat (fill_first k v ts)"
  by (induction ts rule: flat.induct) (auto simp: plain_value_def)

lemma fill_first_commute:
  "k1 \<noteq> k2 \<Longrightarrow>
   fill_first k1 v1 (fill_first k2 v2 ts) = fill_first k2 v2 (fill_first k1 v1 ts)"
  by (induction ts rule: flat.induct) auto

lemma interpolate_template_of:
  assumes "\<forall>(k, v)\<in>set d. plain_key k \<and> plain_value v" "flat ts"
  shows "foldl (\<lambda>result (key, val). String_replace result (CHR ''{'' # key @ ''}'') val)
           (template_of ts) d = template_of (fill_all d ts)"
  using assms
proof (induction d arbitrary: ts)
  case Nil
  then show ?case by (simp add: fill_all_def)
next
  case (Cons e d)
  obtain k v where e: "e = (k, v)" by (cases e)
  with Cons.prems have pk: "plain_key k" "plain_value v" by auto
  from Cons.prems(1) have rest: "\<forall>(k, v)\<in>set d. plain_key k \<and> plain_value v" by simp
  have "flat (fill_first k v ts)" using Cons.prems(2) pk(2) by (rule flat_fill_first)
  from Cons.IH [OF rest this] show ?case
    using replace_template_of [OF Cons.prems(2) pk] e by (simp add: fill_all_def)
qed

lemma fill_all_permute:
  assumes "distinct (map fst d)" "mset d' = mset d"
  shows "fill_all d' ts = fill_all d ts"
proof -
  have "fold (\<lambda>(k, v). fill_first k v) d = fold (\<lambda>(k, v). fill_first k v) d'"
  proof (rule fold_multiset_equiv)
    fix x y assume xy: "x \<in> set d" "y \<in> set d"
    obtain k1 v1 k2 v2 where e: "x = (k1, v1)" "y = (k2, v2)" by (cases x, cases y)
    show "(case x of (k, v) \<Rightarrow> fill_first k v) \<circ> (case y of (k, v) \<Rightarrow> fill_first k v) =
          (case y of (k, v) \<Rightarrow> fill_first k v) \<circ> (case x of (k, v) \<Rightarrow> fill_first k v)"
    proof (cases "x = y")
      case True
      then show ?thesis by simp
    next
      case False
      with xy assms(1) e have "k1 \<noteq> k2"
        by (metis eq_key_imp_eq_value)
      then show ?thesis using e by (auto simp: fun_eq_iff fill_first_commute)
    qed
  next
    show "mset d = mset d'" using assms(2) by simp
  qed
  then show ?thesis by (simp add: fill_all_def)
qed

lemma interpolatePrompt_Some:
  "interpolatePrompt t (state\<lparr>userData := Some d\<rparr>) =
   foldl (\<lambda>result (key, val). String_replace result (CHR ''{'' # key @ ''}'') val) t d"
  by (simp add: interpolatePrompt_def)

text \<open>
  Claim C2 asks that every occurrence of the placeholder of a key be replaced by the
  string form of the value. The renderer calls \<open>replace\<close> with a string pattern once
  for each key, which replaces the first occurrence only: on a template with two
  occurrences of \<open>{name}\<close> the second one is still there in the result. The value is
  moreover read as a replacement template, so a value \<open>A$$AP\<close> is put in as \<open>A$AP\<close>.
\<close>

theorem C2_only_first_occurrence:
  "interpolatePrompt ''Hi {name}, nice to meet you, {name}!''
     \<lparr>userId = ''42'', context' = [''greeting''], currentTopic = Some ''onboarding'',
      lastInteraction = 0, userData = Some [(''name'', ''Alice'')]\<rparr>
   = ''Hi Alice, nice to meet you, {name}!'' \<and>
   interpolatePrompt ''Nice to meet you, {name}!''
     \<lparr>userId = ''42'', context' = [''greeting''], currentTopic = Some ''onboarding'',
      lastInteraction = 0, userData = Some [(''name'', ''A$$AP'')]\<rparr>
   = ''Nice to meet you, A$AP!''"
  by code_simp

text \<open>
  Claim C7 asks for a simultaneous substitution. The renderer substitutes key after
  key into the running result, so the value substituted for an earlier key is scanned
  for the placeholders of the later keys, and the result depends on the order of the
  keys: with the data \<open>{a: "{b}", b: "X"}\<close> the template \<open>{a}\<close> renders as \<open>X\<close>, with the
  same two entries in the other order as \<open>{b}\<close>.
\<close>

theorem C7_counterexample:
  "interpolatePrompt ''{a}''
     \<lparr>userId = ''42'', context' = [''greeting''], currentTopic = Some ''onboarding'',
      lastInteraction = 0, userData = Some [(''a'', ''{b}''), (''b'', ''X'')]\<rparr> = ''X'' \<and>
   interpolatePrompt ''{a}''
     \<lparr>userId = ''42'', context' = [''greeting''], currentTopic = Some ''onboarding'',
      lastInteraction = 0, userData = Some [(''b'', ''X''), (''a'', ''{b}'')]\<rparr> = ''{b}''"
  by code_simp

text \<open>
  Claim C7, amended. When the template is flat (text without an opening brace, between
  placeholders whose names have no brace), the keys are distinct and plain and the
  values are plain, the rendered text does not depend on the order in which the data
  lists its entries.
\<close>

theorem C7_order_independent_when_flat:
  assumes "flat ts" and "\<forall>(k, v)\<in>set d. plain_key k \<and> plain_value v"
    and "distinct (map fst d)" and "mset d' = mset d"
  shows "interpolatePrompt (template_of ts) (state\<lparr>userData := Some d'\<rparr>) =
           interpolatePrompt (template_of ts) (state\<lparr>userData := Some d\<rparr>)"
proof -
  from assms(4) have "set d' = set d" by (rule mset_eq_setD)
  with assms(2) have d': "\<forall>(k, v)\<in>set d'. plain_key k \<and> plain_value v" by simp
  show ?thesis
    using interpolate_template_of [OF assms(2,1)] interpolate_template_of [OF d' assms(1)]
      fill_all_permute [OF assms(3,4)]
    by (simp add: interpolatePrompt_Some)
qed

theorem C7_order_independent_when_flat_witness:
  "interpolatePrompt (template_of [Text ''Hello '', Placeholder ''name'', Text '', your ID is '',
       Placeholder ''id'', Text ''.''])
     (\<lparr>userId = ''42'', context' = [''greeting''], currentTopic = Some ''onboarding'',
       lastInteraction = 0, userData = None\<rparr>\<lparr>userData := Some [(''id'', ''12345''), (''name'', ''Bob'')]\<rparr>)
   = interpolatePrompt (template_of [Text ''Hello '', Placeholder ''name'', Text '', your ID is '',
       Placeholder ''id'', Text ''.''])
     (\<lparr>userId = ''42'', context' = [''greeting''], currentTopic = Some ''onboarding'',
       lastInteraction = 0, userData = None\<rparr>\<lparr>userData := Some [(''name'', ''Bob''), (''id'', ''12345'')]\<rparr>) \<and>
   interpolatePrompt (template_of [Text ''Hello '', Placeholder ''name'', Text '', your ID is '',
       Placeholder ''id'', Text ''.''])
     (\<lparr>userId = ''42'', context' = [''greeting''], currentTopic = Some ''onboarding'',
       lastInteraction = 0, userData = None\<rparr>\<lparr>userData := Some [(''name'', ''Bob''), (''id'', ''12345'')]\<rparr>)
   = ''Hello Bob, your ID is 12345.''"
proof -
  have f: "flat [Text ''Hello '', Placeholder ''name'', Text '', your ID is '',
       Placeholder ''id'', Text ''.'']"
    by (simp add: plain_key_def)
  have p: "\<forall>(k, v)\<in>set [(''name'', ''Bob''), (''id'', ''12345'')]. plain_key k \<and> plain_value v"
    by (simp add: plain_key_def plain_value_def)
  have d: "distinct (map fst [(''name'', ''Bob''), (''id'', ''12345'')])" by simp
  have m: "mset [(''id'', ''12345''), (''name'', ''Bob'')] = mset [(''name'', ''Bob''), (''id'', ''12345'')]"
    by simp
  have e: "interpolatePrompt (template_of [Text ''Hello '', Placeholder ''name'',
       Text '', your ID is '', Placeholder ''id'', Text ''.''])
     (\<lparr>userId = ''42'', context' = [''greeting''], currentTopic = Some ''onboarding'',
       lastInteraction = 0, userData = None\<rparr>\<lparr>userData := Some [(''name'', ''Bob''), (''id'', ''12345'')]\<rparr>)
   = ''Hello Bob, your ID is 12345.''"
    by code_simp
  from C7_order_independent_when_flat [OF f p d m,
        of "\<lparr>userId = ''42'', context' = [''greeting''], currentTopic = Some ''onboarding'',
          lastInteraction = 0, userData = None\<rparr>"] e
  show ?thesis by (rule conjI)
qed

lemma split_at_char:
  "s1 @ b = u @ x # rest \<Longrightarrow> x \<notin> set s1 \<Longrightarrow> \<exists>w. u = s1 @ w \<and> b = w @ x # rest"
proof (induction s1 arbitrary: u)
  case Nil
  then show ?case by simp
next
  case (Cons c s1)
  then show ?case by (cases u) auto
qed

lemma occurrences_disjoint:
  assumes "plain_key k" "plain_key x" "k \<noteq> x"
  shows "a @ (CHR ''{'' # k @ ''}'') @ b = u @ (CHR ''{'' # x @ ''}'') @ w \<Longrightarrow>
    (\<exists>u'. a = u @ (CHR ''{'' # x @ ''}'') @ u') \<or> (\<exists>w'. b = w' @ (CHR ''{'' # x @ ''}'') @ w)"
proof (induction a arbitrary: u)
  case Nil
  show ?case
  proof (cases u)
    case Nil
    with Nil.prems have "x @ CHR ''}'' # w = (k @ ''}'') @ b" by simp
    then have "prefix (k @ ''}'') (x @ CHR ''}'' # w)" by (rule prefixI)
    then have "k = x" using assms(1,2) snoc_prefix_eq [of k "CHR ''}''" x w]
      by (simp add: plain_key_def)
    with assms(3) show ?thesis by simp
  next
    case (Cons c u')
    with Nil.prems have eq: "(k @ ''}'') @ b = u' @ CHR ''{'' # (x @ ''}'' @ w)" by simp
    have "CHR ''{'' \<notin> set (k @ ''}'')" using assms(1) by (simp add: plain_key_def)
    from split_at_char [OF eq this] show ?thesis by auto
  qed
next
  case (Cons c a)
  show ?case
  proof (cases u)
    case Nil
    with Cons.prems have eq: "(x @ ''}'') @ w = a @ CHR ''{'' # (k @ ''}'' @ b)" by simp
    have "CHR ''{'' \<notin> set (x @ ''}'')" using assms(2) by (simp add: plain_key_def)
    from split_at_char [OF eq this] Cons.prems Nil show ?thesis by auto
  next
    case (Cons c' u')
    with Cons.prems have "a @ (CHR ''{'' # k @ ''}'') @ b = u' @ (CHR ''{'' # x @ ''}'') @ w"
      and "c' = c" by simp_all
    with Cons.IH [of u'] Cons show ?thesis by auto
  qed
qed

lemma replace_keeps_other_placeholder:
  assumes "plain_key k" "plain_key x" "k \<noteq> x"
    and inc: "includes_str s (CHR ''{'' # x @ ''}'')"
  shows "includes_str (String_replace s (CHR ''{'' # k @ ''}'') r) (CHR ''{'' # x @ ''}'')"
proof (cases "stringIndexOf s (CHR ''{'' # k @ ''}'')")
  case None
  with inc show ?thesis by (simp add: String_replace_def)
next
  case (Some i)
  define a where "a = take i s"
  define b where "b = drop (i + length (CHR ''{'' # k @ ''}'')) s"
  define R where "R = getSubstitution (CHR ''{'' # k @ ''}'') a b r"
  from stringIndexOf_split [OF Some] have s: "s = a @ (CHR ''{'' # k @ ''}'') @ b"
    by (simp add: a_def b_def)
  have res: "String_replace s (CHR ''{'' # k @ ''}'') r = a @ R @ b"
    using Some by (simp add: String_replace_def a_def b_def R_def Let_def)
  from inc obtain u w where "s = u @ (CHR ''{'' # x @ ''}'') @ w"
    unfolding includes_str_iff by blast
  with s have "a @ (CHR ''{'' # k @ ''}'') @ b = u @ (CHR ''{'' # x @ ''}'') @ w" by simp
  from occurrences_disjoint [OF assms(1-3) this]
  show ?thesis
  proof
    assume "\<exists>u'. a = u @ (CHR ''{'' # x @ ''}'') @ u'"
    then obtain u' where "a = u @ (CHR ''{'' # x @ ''}'') @ u'" by blast
    then have "a @ R @ b = u @ (CHR ''{'' # x @ ''}'') @ (u' @ R @ b)" by simp
    then show ?thesis unfolding res includes_str_iff by blast
  next
    assume "\<exists>w'. b = w' @ (CHR ''{'' # x @ ''}'') @ w"
    then obtain w' where "b = w' @ (CHR ''{'' # x @ ''}'') @ w" by blast
    then have "a @ R @ b = (a @ R @ w') @ (CHR ''{'' # x @ ''}'') @ w" by simp
    then show ?thesis unfolding res includes_str_iff by blast
  qed
qed

lemma interpolate_keeps_other_placeholder:
  assumes "plain_key x"
  shows "\<forall>k\<in>fst ` set d. plain_key k \<and> k \<noteq> x \<Longrightarrow> includes_str t (CHR ''{'' # x @ ''}'') \<Longrightarrow>
    includes_str (foldl (\<lambda>result (key, val). String_replace result (CHR ''{'' # key @ ''}'') val) t d)
      (CHR ''{'' # x @ ''}'')"
proof (induction d arbitrary: t)
  case Nil
  then show ?case by simp
next
  case (Cons e d)
  obtain k v where e: "e = (k, v)" by (cases e)
  with Cons.prems(1) have k: "plain_key k" "k \<noteq> x" by auto
  from Cons.prems(1) have rest: "\<forall>k\<in>fst ` set d. plain_key k \<and> k \<noteq> x" by simp
  have "includes_str (String_replace t (CHR ''{'' # k @ ''}'') v) (CHR ''{'' # x @ ''}'')"
    using k(1) assms k(2) Cons.prems(2) by (rule replace_keeps_other_placeholder)
  from Cons.IH [OF rest this] e show ?case by simp
qed

lemma interpolate_absent:
  "\<forall>k\<in>fst ` set d. \<not> includes_str t (CHR ''{'' # k @ ''}'') \<Longrightarrow>
   foldl (\<lambda>result (key, val). String_replace result (CHR ''{'' # key @ ''}'') val) t d = t"
  by (induction d) (auto simp: String_replace_absent)

lemma length_fill_first: "length (fill_first k v ts) = length ts"
  by (induction ts rule: flat.induct) auto

lemma nth_fill_first:
  "i < length ts \<Longrightarrow> ts ! i \<noteq> Placeholder k \<Longrightarrow> fill_first k v ts ! i = ts ! i"
proof (induction ts arbitrary: i rule: flat.induct)
  case 1
  then show ?case by simp
next
  case (2 s ts)
  then show ?case by (cases i) auto
next
  case (3 k' ts)
  then show ?case by (cases i) auto
qed

lemma length_fill_all: "length (fill_all d ts) = length ts"
  by (induction d arbitrary: ts) (auto simp: fill_all_def length_fill_first)

lemma nth_fill_all:
  "i < length ts \<Longrightarrow> \<forall>k\<in>fst ` set d. ts ! i \<noteq> Placeholder k \<Longrightarrow> fill_all d ts ! i = ts ! i"
proof (induction d arbitrary: ts)
  case Nil
  then show ?case by (simp add: fill_all_def)
next
  case (Cons e d)
  obtain k v where e: "e = (k, v)" by (cases e)
  with Cons.prems have 1: "fill_first k v ts ! i = ts ! i"
    by (simp add: nth_fill_first)
  with Cons.prems have "fill_all d (fill_first k v ts) ! i = fill_first k v ts ! i"
    by (intro Cons.IH) (simp_all add: length_fill_first)
  with 1 e show ?case by (simp add: fill_all_def)
qed

text \<open>
  Claim C8 asks that every part of the template that is not a placeholder of a key of
  the data be left as it is. The renderer substitutes into the running result, so text
  of the template can end up inside a placeholder that a substituted value opens: with
  the data \<open>{a: "{", x: "Q"}\<close> the template \<open>{a}x}\<close> becomes \<open>{x}\<close> and then \<open>Q\<close>, and the
  text \<open>x}\<close> of the template is gone.
\<close>

theorem C8_counterexample:
  "interpolatePrompt ''{a}x}''
     \<lparr>userId = ''42'', context' = [''greeting''], currentTopic = Some ''onboarding'',
      lastInteraction = 0, userData = Some [(''a'', ''{''), (''x'', ''Q'')]\<rparr> = ''Q''"
  by code_simp

text \<open>
  Claim C8, amended. A template in which no placeholder of a key of the data occurs is
  returned as it is, whatever the data; so is every template when the state has no
  data. A placeholder that occurs in the template and whose name is not a key of the
  data still occurs in the rendered text (names and keys without braces). On a flat
  template with plain data every token that is not a placeholder of a key of the data
  is in the result at its place.
\<close>

theorem C8_other_text_untouched:
  "((\<forall>k\<in>fst ` set d. \<not> includes_str t (CHR ''{'' # k @ ''}'')) \<longrightarrow>
      interpolatePrompt t (state\<lparr>userData := Some d\<rparr>) = t) \<and>
   interpolatePrompt t (state\<lparr>userData := None\<rparr>) = t \<and>
   ((\<forall>k\<in>fst ` set d. plain_key k) \<and> plain_key x \<and> x \<notin> fst ` set d \<and>
      includes_str t (CHR ''{'' # x @ ''}'') \<longrightarrow>
      includes_str (interpolatePrompt t (state\<lparr>userData := Some d\<rparr>)) (CHR ''{'' # x @ ''}'')) \<and>
   (flat ts \<and> (\<forall>(k, v)\<in>set d. plain_key k \<and> plain_value v) \<longrightarrow>
      (\<exists>ts'. interpolatePrompt (template_of ts) (state\<lparr>userData := Some d\<rparr>) = template_of ts' \<and>
         length ts' = length ts \<and>
         (\<forall>i<length ts. (\<forall>k\<in>fst ` set d. ts ! i \<noteq> Placeholder k) \<longrightarrow> ts' ! i = ts ! i)))"
proof (intro conjI impI)
  assume "\<forall>k\<in>fst ` set d. \<not> includes_str t (CHR ''{'' # k @ ''}'')"
  then show "interpolatePrompt t (state\<lparr>userData := Some d\<rparr>) = t"
    by (simp add: interpolatePrompt_Some interpolate_absent)
next
  show "interpolatePrompt t (state\<lparr>userData := None\<rparr>) = t"
    by (simp add: interpolatePrompt_def)
next
  assume a: "(\<forall>k\<in>fst ` set d. plain_key k) \<and> plain_key x \<and> x \<notin> fst ` set d \<and>
      includes_str t (CHR ''{'' # x @ ''}'')"
  then have "\<forall>k\<in>fst ` set d. plain_key k \<and> k \<noteq> x" by auto
  with a show "includes_str (interpolatePrompt t (state\<lparr>userData := Some d\<rparr>)) (CHR ''{'' # x @ ''}'')"
    by (simp add: interpolatePrompt_Some interpolate_keeps_other_placeholder)
next
  assume a: "flat ts \<and> (\<forall>(k, v)\<in>set d. plain_key k \<and> plain_value v)"
  then have "interpolatePrompt (template_of ts) (state\<lparr>userData := Some d\<rparr>)
      = template_of (fill_all d ts)"
    by (simp add: interpolatePrompt_Some interpolate_template_of)
  then show "\<exists>ts'. interpolatePrompt (template_of ts) (state\<lparr>userData := Some d\<rparr>) = template_of ts' \<and>
         length ts' = length ts \<and>
         (\<forall>i<length ts. (\<forall>k\<in>fst ` set d. ts ! i \<noteq> Placeholder k) \<longrightarrow> ts' ! i = ts ! i)"
    by (intro exI [of _ "fill_all d ts"]) (simp add: length_fill_all nth_fill_all)
qed

theorem C8_other_text_untouched_witness:
  "interpolatePrompt ''Hello {user}!''
     (\<lparr>userId = ''42'', context' = [''greeting''], currentTopic = Some ''onboarding'',
       lastInteraction = 0, userData = None\<rparr>
      \<lparr>userData := Some [(''name'', ''Bob''), (''id'', ''12345'')]\<rparr>)
     = ''Hello {user}!'' \<and>
   includes_str (interpolatePrompt ''Hi {name}, see {topic}''
     (\<lparr>userId = ''42'', context' = [''greeting''], currentTopic = Some ''onboarding'',
       lastInteraction = 0, userData = None\<rparr>
      \<lparr>userData := Some [(''name'', ''Bob''), (''id'', ''12345'')]\<rparr>)) ''{topic}'' \<and>
   (\<exists>ts'. interpolatePrompt
        (template_of [Text ''Hi '', Placeholder ''name'', Text '', see '', Placeholder ''topic''])
        (\<lparr>userId = ''42'', context' = [''greeting''], currentTopic = Some ''onboarding'',
          lastInteraction = 0, userData = None\<rparr>
         \<lparr>userData := Some [(''name'', ''Bob''), (''id'', ''12345'')]\<rparr>)
       = template_of ts' \<and>
      ts' ! 0 = Text ''Hi '' \<and> ts' ! 2 = Text '', see '' \<and> ts' ! 3 = Placeholder ''topic'')"
proof -
  let ?st = "\<lparr>userId = ''42'', context' = [''greeting''], currentTopic = Some ''onboarding'',
      lastInteraction = 0, userData = None\<rparr>"
  let ?d = "[(''name'', ''Bob''), (''id'', ''12345'')]"
  let ?ts = "[Text ''Hi '', Placeholder ''name'', Text '', see '', Placeholder ''topic'']"
  have n1: "\<not> includes_str ''Hello {user}!'' ''{name}''" by code_simp
  have n2: "\<not> includes_str ''Hello {user}!'' ''{id}''" by code_simp
  have i1: "includes_str ''Hi {name}, see {topic}'' ''{topic}''" by code_simp
  have pk: "plain_key ''name''" "plain_key ''id''" "plain_key ''topic''"
    by (simp_all add: plain_key_def)
  have pv: "plain_value ''Bob''" "plain_value ''12345''" by (simp_all add: plain_value_def)
  have fl: "flat ?ts" by (simp add: plain_key_def)
  have h1: "\<forall>k\<in>fst ` set ?d. \<not> includes_str ''Hello {user}!'' (CHR ''{'' # k @ ''}'')"
    using n1 n2 by simp
  have h3: "(\<forall>k\<in>fst ` set ?d. plain_key k) \<and> plain_key ''topic'' \<and> ''topic'' \<notin> fst ` set ?d \<and>
      includes_str ''Hi {name}, see {topic}'' (CHR ''{'' # ''topic'' @ ''}'')"
    using pk i1 by simp
  have h4: "flat ?ts \<and> (\<forall>(k, v)\<in>set ?d. plain_key k \<and> plain_value v)"
    using fl pk pv by simp
  have 1: "interpolatePrompt ''Hello {user}!'' (?st\<lparr>userData := Some ?d\<rparr>) = ''Hello {user}!''"
    using C8_other_text_untouched [of ?d "''Hello {user}!''" ?st] h1 by blast
  have 2: "includes_str (interpolatePrompt ''Hi {name}, see {topic}'' (?st\<lparr>userData := Some ?d\<rparr>))
      (CHR ''{'' # ''topic'' @ ''}'')"
    using C8_other_text_untouched [of ?d "''Hi {name}, see {topic}''" ?st "''topic''"] h3 by blast
  have "\<exists>ts'. interpolatePrompt (template_of ?ts) (?st\<lparr>userData := Some ?d\<rparr>) = template_of ts' \<and>
         length ts' = length ?ts \<and>
         (\<forall>i<length ?ts. (\<forall>k\<in>fst ` set ?d. ?ts ! i \<noteq> Placeholder k) \<longrightarrow> ts' ! i = ?ts ! i)"
    using C8_other_text_untouched [of ?d _ ?st _ ?ts] h4 by blast
  then obtain ts' where 3:
      "interpolatePrompt (template_of ?ts) (?st\<lparr>userData := Some ?d\<rparr>) = template_of ts'"
      "\<forall>i<length ?ts. (\<forall>k\<in>fst ` set ?d. ?ts ! i \<noteq> Placeholder k) \<longrightarrow> ts' ! i = ?ts ! i"
    by blast
  from 3(2) have "ts' ! 0 = ?ts ! 0" "ts' ! 2 = ?ts ! 2" "ts' ! 3 = ?ts ! 3" by simp_all
  then have "ts' ! 0 = Text ''Hi ''" "ts' ! 2 = Text '', see ''" "ts' ! 3 = Placeholder ''topic''"
    by simp_all
  with 3(1) have 4: "\<exists>ts'. interpolatePrompt (template_of ?ts) (?st\<lparr>userData := Some ?d\<rparr>)
       = template_of ts' \<and>
      ts' ! 0 = Text ''Hi '' \<and> ts' ! 2 = Text '', see '' \<and> ts' ! 3 = Placeholder ''topic''"
    by blast
  from 2 have incl: "includes_str (interpolatePrompt ''Hi {name}, see {topic}'' (?st\<lparr>userData := Some ?d\<rparr>))
      ''{topic}''" by simp
  from 1 incl 4 show ?thesis by blast
qed

section \<open>Properties of the registry and of the conversation engine\<close>

lemma map_of_Map_set: "map_of (Map_set k v m) = (map_of m)(k \<mapsto> v)"
  by (induction m) (auto simp: fun_eq_iff)

lemmas engine_defs =
  handleMessage_def handleExistingConversation_def handleNewConversation_def
  processConversation_def processUserInput_def transitionToNextState_def
  handleUnknownInput_def handleInitialState_def handleConfusedState_def
  sendMessage_def store_def conversations_delete_def createConversationState_def

lemma currentStateName_lastInteraction [simp]:
  "currentStateName (state\<lparr>lastInteraction := now\<rparr>) flow = currentStateName state flow"
  by (simp add: currentStateName_def)


lemma currentStateName_cong:
  "context' state' = context' state \<Longrightarrow> currentStateName state' flow = currentStateName state flow"
  by (simp add: currentStateName_def)

lemma interpolatePrompt_no_data [simp]:
  "userData state = Some [] \<Longrightarrow> interpolatePrompt t state = t"
  by (simp add: interpolatePrompt_def)

lemma interpolatePrompt_any_Some [simp]:
  "interpolatePrompt_any (Some p) state = Inr (Some (interpolatePrompt p state))"
  by (simp add: interpolatePrompt_any_def)

lemma handleMessage_live:
  assumes "\<not> isFromBot message" "conversations self (authorId message) = Some state"
    "\<not> isSessionExpired now state" "currentTopic state = Some flowName" "flowName \<noteq> []"
    "map_of (flows self) flowName = Some flow"
  shows "handleMessage H now message self =
    processConversation H now message (authorId message) state flow self"
  using assms by (simp add: handleMessage_def handleExistingConversation_def)

lemma handleMessage_new:
  assumes "\<not> isFromBot message"
    and "conversations self (authorId message) = None \<or>
         (\<exists>state. conversations self (authorId message) = Some state \<and> isSessionExpired now state)"
  shows "handleMessage H now message self =
    handleNewConversation H now message (authorId message) self"
  using assms by (auto simp: handleMessage_def)

lemma processConversation_confused:
  assumes "getProperty H (states flow) (currentStateName state flow) = Undefined"
  shows "processConversation H now message u state flow self =
    (Done, self\<lparr>conversations := ((conversations self)(u \<mapsto> state\<lparr>lastInteraction := now\<rparr>))
                     (userId state := None),
                 sent := sent self @
                   [(channelId message, Some ''I'm a bit confused. Let's start over!'')]\<rparr>)"
  using assms by (simp add: engine_defs)

lemma handleMessage_confused:
  assumes "\<not> isFromBot message"
    and "conversations self (authorId message) = Some state"
    and "userId state = authorId message"
    and "\<not> isSessionExpired now state"
    and "currentTopic state = Some flowName" and "flowName \<noteq> []"
    and "map_of (flows self) flowName = Some flow"
    and "getProperty H (states flow) (currentStateName state flow) = Undefined"
  shows "handleMessage H now message self =
    (Done, self\<lparr>conversations := (conversations self)(authorId message := None),
                 sent := sent self @
                   [(channelId message, Some ''I'm a bit confused. Let's start over!'')]\<rparr>)"
  using assms
  by (simp add: handleMessage_live [OF assms(1,2,4,5,6,7)] processConversation_confused)

lemma handleMessage_initial:
  assumes "\<not> isFromBot message"
    and "conversations self (authorId message) = None \<or>
         (\<exists>state. conversations self (authorId message) = Some state \<and> isSessionExpired now state)"
    and "detectFlow H (content message) self = Some flow"
    and "map_of (states flow) (initialState flow) = Some initial"
  shows "handleMessage H now message self =
    (Done, self\<lparr>conversations := (conversations self)(authorId message \<mapsto>
                     \<lparr>userId = authorId message, context' = [initialState flow],
                      currentTopic = Some (name flow), lastInteraction = now,
                      userData = Some []\<rparr>),
                 sent := sent self @ [(channelId message, Some (prompt initial))]\<rparr>)"
  unfolding handleMessage_new [OF assms(1,2)]
  using assms(3) getProperty_Own [OF assms(4), of H]
  by (simp add: handleNewConversation_def processConversation_def currentStateName_def
      handleInitialState_def createConversationState_def store_def sendMessage_def)

lemma action_frame:
  assumes "actions_ok flow" "map_of (states flow) n = Some cur"
  shows "\<exists>ud. (case action cur of None \<Rightarrow> st | Some act \<Rightarrow> act st inp) = st\<lparr>userData := ud\<rparr>"
proof (cases "action cur")
  case None
  have "st = st\<lparr>userData := userData st\<rparr>" by simp
  with None show ?thesis by (auto intro: exI [of _ "userData st"])
next
  case (Some act)
  from assms(2) have "(n, cur) \<in> set (states flow)" by (rule map_of_SomeD)
  with assms(1) Some have "act st inp = st\<lparr>userData := userData (act st inp)\<rparr>"
    by (auto simp: actions_ok_def)
  with Some show ?thesis by (auto intro: exI [of _ "userData (act st inp)"])
qed

text \<open>What one message does to a live session that is past its first message.\<close>

lemma processConversation_input:
  assumes ok: "actions_ok flow"
    and ne: "context' state \<noteq> []"
    and cur: "map_of (states flow) (currentStateName state flow) = Some cur"
  shows "\<exists>ud. let st1 = state\<lparr>lastInteraction := now, userData := ud\<rparr>;
                self1 = self\<lparr>conversations := (conversations self)(u \<mapsto> st1)\<rparr>
    in processConversation H now message u state flow self =
      (case findNextState H (trim H (toLowerCase H (content message))) (transitions cur) of
         Inl e \<Rightarrow> (Raised e, self1)
       | Inr None \<Rightarrow> (Done, handleUnknownInput message self1)
       | Inr (Some t) \<Rightarrow>
           if t \<noteq> [] then transitionToNextState H message u st1 flow t self1
           else (Done, handleUnknownInput message self1))"
proof -
  from action_frame [OF ok cur, of "state\<lparr>lastInteraction := now\<rparr>" "content message"]
  obtain ud where ud: "(case action cur of None \<Rightarrow> state\<lparr>lastInteraction := now\<rparr>
      | Some act \<Rightarrow> act (state\<lparr>lastInteraction := now\<rparr>) (content message))
      = state\<lparr>lastInteraction := now, userData := ud\<rparr>"
    by auto
  show ?thesis
    using ne ud getProperty_Own [OF cur, of H]
    by (intro exI [of _ ud])
       (simp add: processConversation_def processUserInput_def store_def Let_def
          split: sum.splits option.splits)
qed

lemma processConversation_inherited:
  assumes ne: "context' state \<noteq> []"
    and cur: "getProperty H (states flow) (currentStateName state flow) = Inherited"
  shows "processConversation H now message u state flow self =
    (Raised TypeError,
     self\<lparr>conversations := (conversations self)(u \<mapsto> state\<lparr>lastInteraction := now\<rparr>)\<rparr>)"
  using ne cur by (simp add: processConversation_def processUserInput_def store_def Let_def)

lemma handleMessage_matched:
  assumes nb: "\<not> isFromBot message"
    and sess: "conversations self (authorId message) = Some state"
    and live: "\<not> isSessionExpired now state"
    and topic: "currentTopic state = Some flowName" "flowName \<noteq> []"
    and flow: "map_of (flows self) flowName = Some flow"
    and ok: "actions_ok flow"
    and ne: "context' state \<noteq> []"
    and cur: "map_of (states flow) (currentStateName state flow) = Some cur"
    and match: "findNextState H (trim H (toLowerCase H (content message))) (transitions cur)
        = Inr (Some t)" "t \<noteq> []"
  shows "\<exists>ud. handleMessage H now message self =
    transitionToNextState H message (authorId message)
         (state\<lparr>lastInteraction := now, userData := ud\<rparr>) flow t
         (self\<lparr>conversations := (conversations self)(authorId message \<mapsto>
            state\<lparr>lastInteraction := now, userData := ud\<rparr>)\<rparr>)"
proof -
  from processConversation_input [OF ok ne cur, where now = now and message = message
      and u = "authorId message" and self = self and H = H]
  obtain ud where "processConversation H now message (authorId message) state flow self =
      transitionToNextState H message (authorId message)
         (state\<lparr>lastInteraction := now, userData := ud\<rparr>) flow t
         (self\<lparr>conversations := (conversations self)(authorId message \<mapsto>
            state\<lparr>lastInteraction := now, userData := ud\<rparr>)\<rparr>)"
    using match by (auto simp: Let_def)
  then show ?thesis
    by (intro exI [of _ ud]) (simp add: handleMessage_live [OF nb sess live topic flow])
qed

lemma handleMessage_unmatched:
  assumes nb: "\<not> isFromBot message"
    and sess: "conversations self (authorId message) = Some state"
    and live: "\<not> isSessionExpired now state"
    and topic: "currentTopic state = Some flowName" "flowName \<noteq> []"
    and flow: "map_of (flows self) flowName = Some flow"
    and ok: "actions_ok flow"
    and ne: "context' state \<noteq> []"
    and cur: "map_of (states flow) (currentStateName state flow) = Some cur"
    and none: "findNextState H (trim H (toLowerCase H (content message))) (transitions cur)
        = Inr None \<or>
      findNextState H (trim H (toLowerCase H (content message))) (transitions cur)
        = Inr (Some [])"
  shows "\<exists>ud. handleMessage H now message self =
    (Done, self\<lparr>conversations := (conversations self)(authorId message \<mapsto>
                    state\<lparr>lastInteraction := now, userData := ud\<rparr>),
                 sent := sent self @
                   [(channelId message, Some ''I didn't understand that. Could you rephrase?'')]\<rparr>)"
proof -
  from processConversation_input [OF ok ne cur, where now = now and message = message
      and u = "authorId message" and self = self and H = H]
  obtain ud where "processConversation H now message (authorId message) state flow self =
      (Done, handleUnknownInput message
         (self\<lparr>conversations := (conversations self)(authorId message \<mapsto>
            state\<lparr>lastInteraction := now, userData := ud\<rparr>)\<rparr>))"
    using none by (auto simp: Let_def)
  then show ?thesis
    by (intro exI [of _ ud])
       (simp add: handleMessage_live [OF nb sess live topic flow] handleUnknownInput_def
          sendMessage_def)
qed


lemma transitionToNextState_history:
  "conversations (snd (transitionToNextState H message u state flow t self)) u = None \<or>
   conversations (snd (transitionToNextState H message u state flow t self)) u =
     Some (state\<lparr>context' := context' state @ [t]\<rparr>)"
  by (auto simp: transitionToNextState_def store_def sendMessage_def conversations_delete_def
      Let_def split: property.splits sum.splits)

lemma transitionToNextState_session:
  assumes "userId state = u" and "\<not> inherited H ''complete''"
  shows "conversations (snd (transitionToNextState H message u state flow t self)) u =
    (if t = ''complete'' \<and> map_of (states flow) t \<noteq> None then None
     else Some (state\<lparr>context' := context' state @ [t]\<rparr>))"
  using assms
  by (auto simp: transitionToNextState_def store_def sendMessage_def conversations_delete_def
      getProperty_def Let_def split: property.splits sum.splits option.splits)

lemma transitionToNextState_complete:
  assumes "userId state = u" and "map_of (states flow) ''complete'' \<noteq> None"
  shows "conversations (snd (transitionToNextState H message u state flow ''complete'' self)) u
    = None"
  using assms
  by (auto simp: transitionToNextState_def store_def sendMessage_def conversations_delete_def
      getProperty_def Let_def split: property.splits sum.splits option.splits)

lemma stuck_step:
  assumes nb: "\<not> isFromBot message"
    and sess: "conversations self (authorId message) = Some state"
    and live: "now - lastInteraction state \<le> sessionTimeout"
    and topic: "currentTopic state = Some flowName" "flowName \<noteq> []"
    and flow: "map_of (flows self) flowName = Some flow"
    and ok: "actions_ok flow"
    and ne: "context' state \<noteq> []"
    and cur: "map_of (states flow) (currentStateName state flow) = Some cur"
    and stuck: "transitions cur = []"
  shows "\<exists>ud. handleMessage H now message self =
    (Done, self\<lparr>conversations := (conversations self)(authorId message \<mapsto>
                    state\<lparr>lastInteraction := now, userData := ud\<rparr>),
                 sent := sent self @
                   [(channelId message, Some ''I didn't understand that. Could you rephrase?'')]\<rparr>)"
proof -
  have live': "\<not> isSessionExpired now state" using live by (simp add: isSessionExpired_def)
  have "findNextState H (trim H (toLowerCase H (content message))) (transitions cur) = Inr None"
    by (simp add: stuck findNextState_def Object_entries_def)
  then have none:
    "findNextState H (trim H (toLowerCase H (content message))) (transitions cur) = Inr None \<or>
     findNextState H (trim H (toLowerCase H (content message))) (transitions cur) = Inr (Some [])"
    by (rule disjI1)
  from handleMessage_unmatched [OF nb sess live' topic flow ok ne cur none]
  show ?thesis .
qed

lemma cleanup_keeps_live:
  "conversations self u = Some state \<Longrightarrow> now - lastInteraction state \<le> sessionTimeout \<Longrightarrow>
   conversations (cleanupExpiredSessions now self) u = Some state"
  by (simp add: cleanupExpiredSessions_def)

lemma stuck_run:
  assumes ok: "actions_ok flow" and fn: "flowName \<noteq> []" and stuck: "transitions cur = []"
  shows "conversations self u = Some state \<Longrightarrow>
    currentTopic state = Some flowName \<Longrightarrow>
    map_of (flows self) flowName = Some flow \<Longrightarrow>
    context' state \<noteq> [] \<Longrightarrow>
    map_of (states flow) (currentStateName state flow) = Some cur \<Longrightarrow>
    \<forall>m\<in>set (messages_of events). \<not> isFromBot m \<and> authorId m = u \<Longrightarrow>
    in_time (lastInteraction state) events \<Longrightarrow>
    sent (handleEvents H events self) = sent self @
      map (\<lambda>m. (channelId m, Some ''I didn't understand that. Could you rephrase?''))
        (messages_of events) \<and>
    (\<exists>state'. conversations (handleEvents H events self) u = Some state' \<and>
       context' state' = context' state)"
proof (induction events arbitrary: self state rule: messages_of.induct)
  case 1
  then show ?case by simp
next
  case (2 now m events)
  from "2.prems"(6) have nb: "\<not> isFromBot m" and au: "authorId m = u" by auto
  from "2.prems"(7) have live: "now - lastInteraction state \<le> sessionTimeout"
    and later: "in_time now events" by auto
  from "2.prems"(1) au have sess: "conversations self (authorId m) = Some state" by simp
  from stuck_step [OF nb sess live "2.prems"(2) fn "2.prems"(3) ok "2.prems"(4,5) stuck, of H]
  obtain ud where step: "handleMessage H now m self =
    (Done, self\<lparr>conversations := (conversations self)(authorId m \<mapsto>
                    state\<lparr>lastInteraction := now, userData := ud\<rparr>),
                 sent := sent self @
                   [(channelId m, Some ''I didn't understand that. Could you rephrase?'')]\<rparr>)"
    by blast
  define state1 where "state1 = state\<lparr>lastInteraction := now, userData := ud\<rparr>"
  define self1 where "self1 = self\<lparr>conversations := (conversations self)(authorId m \<mapsto> state1),
                 sent := sent self @
                   [(channelId m, Some ''I didn't understand that. Could you rephrase?'')]\<rparr>"
  have 1: "conversations self1 u = Some state1" by (simp add: self1_def au)
  have 2: "currentTopic state1 = Some flowName" by (simp add: state1_def "2.prems"(2))
  have 3: "map_of (flows self1) flowName = Some flow" by (simp add: self1_def "2.prems"(3))
  have 4: "context' state1 \<noteq> []" by (simp add: state1_def "2.prems"(4))
  have "currentStateName state1 flow = currentStateName state flow"
    by (rule currentStateName_cong) (simp add: state1_def)
  with "2.prems"(5) have 5: "map_of (states flow) (currentStateName state1 flow) = Some cur"
    by simp
  from "2.prems"(6) have 6: "\<forall>m\<in>set (messages_of events). \<not> isFromBot m \<and> authorId m = u"
    by simp
  from later have 7: "in_time (lastInteraction state1) events" by (simp add: state1_def)
  from "2.IH" [OF 1 2 3 4 5 6 7]
  have "sent (handleEvents H events self1) = sent self1 @
      map (\<lambda>m. (channelId m, Some ''I didn't understand that. Could you rephrase?''))
        (messages_of events) \<and>
    (\<exists>state'. conversations (handleEvents H events self1) u = Some state' \<and>
       context' state' = context' state1)" .
  moreover have "handleEvents H (MessageCreate now m # events) self = handleEvents H events self1"
    using step by (simp add: self1_def state1_def)
  ultimately show ?case
    by (simp add: self1_def state1_def)
next
  case (3 now events)
  from "3.prems"(7) have live: "now - lastInteraction state \<le> sessionTimeout"
    and later: "in_time (lastInteraction state) events" by auto
  define self1 where "self1 = cleanupExpiredSessions now self"
  have 1: "conversations self1 u = Some state"
    unfolding self1_def using "3.prems"(1) live by (rule cleanup_keeps_live)
  have 3: "map_of (flows self1) flowName = Some flow"
    by (simp add: self1_def cleanupExpiredSessions_def "3.prems"(3))
  from "3.prems"(6) have 6: "\<forall>m\<in>set (messages_of events). \<not> isFromBot m \<and> authorId m = u"
    by simp
  from "3.IH" [OF 1 "3.prems"(2) 3 "3.prems"(4,5) 6 later]
  show ?case by (simp add: self1_def cleanupExpiredSessions_def)
qed

lemma processConversation_history:
  assumes ok: "actions_ok flow"
  shows "case conversations (snd (processConversation H now message u state flow self)) u of
      None \<Rightarrow> True
    | Some state' \<Rightarrow> prefix (context' state) (context' state')"
proof (cases "getProperty H (states flow) (currentStateName state flow)")
  case Undefined
  then show ?thesis by (simp add: processConversation_confused)
next
  case Inherited
  show ?thesis
  proof (cases "context' state = []")
    case True
    with Inherited show ?thesis
      by (simp add: processConversation_def handleInitialState_def store_def sendMessage_def
          Let_def split: sum.splits)
  next
    case False
    from processConversation_inherited [OF False Inherited]
    show ?thesis by simp
  qed
next
  case (Own cur)
  then have Some: "map_of (states flow) (currentStateName state flow) = Some cur"
    by (simp add: getProperty_Own_iff)
  show ?thesis
  proof (cases "context' state = []")
    case True
    with Own show ?thesis
      by (simp add: processConversation_def handleInitialState_def store_def sendMessage_def
          Let_def)
  next
    case False
    from processConversation_input [OF ok False Some, where now = now and message = message
      and u = u and self = self and H = H]
    obtain ud where pc: "processConversation H now message u state flow self =
      (case findNextState H (trim H (toLowerCase H (content message))) (transitions cur) of
         Inl e \<Rightarrow> (Raised e, self\<lparr>conversations := (conversations self)(u \<mapsto>
                     state\<lparr>lastInteraction := now, userData := ud\<rparr>)\<rparr>)
       | Inr None \<Rightarrow> (Done, handleUnknownInput message
                     (self\<lparr>conversations := (conversations self)(u \<mapsto>
                        state\<lparr>lastInteraction := now, userData := ud\<rparr>)\<rparr>))
       | Inr (Some t) \<Rightarrow>
           if t \<noteq> [] then transitionToNextState H message u
                     (state\<lparr>lastInteraction := now, userData := ud\<rparr>) flow t
                     (self\<lparr>conversations := (conversations self)(u \<mapsto>
                        state\<lparr>lastInteraction := now, userData := ud\<rparr>)\<rparr>)
           else (Done, handleUnknownInput message
                     (self\<lparr>conversations := (conversations self)(u \<mapsto>
                        state\<lparr>lastInteraction := now, userData := ud\<rparr>)\<rparr>)))"
      by (auto simp: Let_def)
    show ?thesis
    proof (cases "findNextState H (trim H (toLowerCase H (content message))) (transitions cur)")
      case (Inl e)
      with pc show ?thesis by simp
    next
      case (Inr r)
      show ?thesis
      proof (cases "\<exists>t. r = Some t \<and> t \<noteq> []")
        case True
        then obtain t where t: "r = Some t" "t \<noteq> []" by blast
        with pc Inr show ?thesis
          using transitionToNextState_history [of H message u
              "state\<lparr>lastInteraction := now, userData := ud\<rparr>" flow t
              "self\<lparr>conversations := (conversations self)(u \<mapsto>
                        state\<lparr>lastInteraction := now, userData := ud\<rparr>)\<rparr>"]
          by auto
      next
        case False
        with pc Inr show ?thesis
          by (cases r) (auto simp: handleUnknownInput_def sendMessage_def)
      qed
    qed
  qed
qed

lemma handleMessage_history:
  assumes sess: "conversations self (authorId message) = Some state"
    and live: "\<not> isSessionExpired now state"
    and ok: "\<forall>(n, f)\<in>set (flows self). actions_ok f"
  shows "case conversations (snd (handleMessage H now message self)) (authorId message) of
      None \<Rightarrow> True
    | Some state' \<Rightarrow> prefix (context' state) (context' state')"
proof (cases "\<exists>flowName flow. \<not> isFromBot message \<and> currentTopic state = Some flowName \<and>
    flowName \<noteq> [] \<and> map_of (flows self) flowName = Some flow")
  case True
  then obtain flowName flow where h: "\<not> isFromBot message" "currentTopic state = Some flowName"
    "flowName \<noteq> []" "map_of (flows self) flowName = Some flow" by blast
  from h(4) have "(flowName, flow) \<in> set (flows self)" by (rule map_of_SomeD)
  with ok have "actions_ok flow" by auto
  from processConversation_history [OF this, where now = now and message = message
      and u = "authorId message" and state = state and self = self and H = H]
  show ?thesis by (simp add: handleMessage_live [OF h(1) sess live h(2,3,4)])
next
  case False
  then have "handleMessage H now message self = (Done, self)"
    using sess live
    by (auto simp: handleMessage_def handleExistingConversation_def split: option.splits)
  with sess show ?thesis by simp
qed

lemmas fixture_defs =
  ConversationalBot_new_def registerConversationFlows_def userMessage_def sessionAt_def
  withSession_def withFlow_def store_def

lemma actions_ok_onboarding: "actions_ok (createOnboardingFlow H)"
  by (simp add: actions_ok_def createOnboardingFlow_def)

lemma actions_ok_feedback: "actions_ok feedbackFlow"
  by (simp add: actions_ok_def feedbackFlow_def)

lemma flows_new_with_feedback:
  "flows (withSession s (withFlow feedbackFlow (ConversationalBot_new H))) =
     [(''onboarding'', createOnboardingFlow H), (''feedback'', feedbackFlow)]"
  by (simp add: fixture_defs feedbackFlow_def)

text \<open>
  Claim C6 asks that registering a flow under a name that is already registered fail.
  The registry is a map and registration is \<open>Map.prototype.set\<close>: on a bot that already
  holds another flow under the name \<open>onboarding\<close>, registration puts the onboarding flow
  in its place.
\<close>

theorem C6_counterexample:
  "map_option triggers (map_of (flows (registerConversationFlows ascii_host
      \<lparr>conversations = Map.empty,
       flows = [(''onboarding'', \<lparr>name = ''onboarding'', triggers = [''bye''], states = [],
                  initialState = ''start''\<rparr>)],
       sent = []\<rparr>)) ''onboarding'')
   = Some [''hello'', ''hi'', ''start'', ''help'']"
  by (simp add: registerConversationFlows_def createOnboardingFlow_def)

text \<open>
  Claim C6, amended. Registration never fails: after it the registry holds the
  onboarding flow under the name \<open>onboarding\<close>, whatever it held under that name before,
  and every other entry as before; sessions and sent messages are untouched.
\<close>

theorem C6_register_replaces:
  "map_of (flows (registerConversationFlows H self)) =
     (map_of (flows self))(''onboarding'' \<mapsto> createOnboardingFlow H) \<and>
   conversations (registerConversationFlows H self) = conversations self \<and>
   sent (registerConversationFlows H self) = sent self"
  by (simp add: registerConversationFlows_def map_of_Map_set)

text \<open>
  Claim C3. A message that starts a flow (its author has no session, or an expired one,
  and the message holds a trigger of the flow) and whose flow's initial state resolves
  leaves a fresh session whose history is the initial state alone, and sends the prompt
  of the initial state. The result does not depend on the transitions or on the action
  of the initial state: the message is not matched against them, the user data is still
  empty, and nothing is raised.
\<close>

theorem C3_trigger_enters_initial_state:
  assumes "\<not> isFromBot message"
    and "conversations self (authorId message) = None \<or>
         (\<exists>state. conversations self (authorId message) = Some state \<and> isSessionExpired now state)"
    and "detectFlow H (content message) self = Some flow"
    and "map_of (states flow) (initialState flow) = Some initial"
  shows "handleMessage H now message self =
    (Done, self\<lparr>conversations := (conversations self)(authorId message \<mapsto>
                     \<lparr>userId = authorId message, context' = [initialState flow],
                      currentTopic = Some (name flow), lastInteraction = now,
                      userData = Some []\<rparr>),
                 sent := sent self @ [(channelId message, Some (prompt initial))]\<rparr>)"
  using assms by (rule handleMessage_initial)

theorem C3_trigger_enters_initial_state_witness:
  "handleMessage ascii_host 1000 (userMessage ''42'' ''Hello there'')
      (ConversationalBot_new ascii_host) =
    (Done, (ConversationalBot_new ascii_host)
       \<lparr>conversations := (conversations (ConversationalBot_new ascii_host))(''42'' \<mapsto>
                     \<lparr>userId = ''42'', context' = [''greeting''],
                      currentTopic = Some ''onboarding'', lastInteraction = 1000,
                      userData = Some []\<rparr>),
        sent := sent (ConversationalBot_new ascii_host) @ [(''general'',
                   Some ([CHR 0xF0, CHR 0x9F, CHR 0x91, CHR 0x8B] @
                   '' Hello! I'm your conversational assistant. What's your name?''))]\<rparr>)"
proof -
  let ?m = "userMessage ''42'' ''Hello there''"
  let ?b = "ConversationalBot_new ascii_host"
  let ?f = "createOnboardingFlow ascii_host"
  have 1: "\<not> isFromBot ?m" by (simp add: userMessage_def)
  have 2: "conversations ?b (authorId ?m) = None \<or>
         (\<exists>state. conversations ?b (authorId ?m) = Some state \<and> isSessionExpired 1000 state)"
    by (simp add: fixture_defs)
  have inc: "includes_str (trim ascii_host (toLowerCase ascii_host ''Hello there'')) ''hello''"
    by code_simp
  have 3: "detectFlow ascii_host (content ?m) ?b = Some ?f"
    using inc by (simp add: detectFlow_def fixture_defs createOnboardingFlow_def)
  have 4: "map_of (states ?f) (initialState ?f) =
    Some \<lparr>prompt = [CHR 0xF0, CHR 0x9F, CHR 0x91, CHR 0x8B] @
            '' Hello! I'm your conversational assistant. What's your name?'',
          transitions = [(''.*'', ''askPurpose'')],
          action = Some (\<lambda>state input.
            state\<lparr>userData := Some [(''name'', trim ascii_host input)]\<rparr>)\<rparr>"
    by (simp add: createOnboardingFlow_def)
  from C3_trigger_enters_initial_state [OF 1 2 3 4]
  show ?thesis by (simp add: userMessage_def createOnboardingFlow_def)
qed







text \<open>
  Claim C9. On a matched transition the session is deleted exactly when the target is
  named \<open>complete\<close> and is a state of the flow (\<open>complete\<close> is not the name of an inherited
  member). In a state without transitions (so not reached under the name \<open>complete\<close>,
  which would have deleted the session) every further message of the user, each handled
  before the session expires, is answered with the generic reply, and the history stays
  as it is.
\<close>

theorem C9_completion_by_name:
  assumes sess: "conversations self (userId state) = Some state"
    and topic: "currentTopic state = Some flowName" "flowName \<noteq> []"
    and flow: "map_of (flows self) flowName = Some flow"
    and ok: "actions_ok flow"
    and ne: "context' state \<noteq> []"
    and cur: "map_of (states flow) (currentStateName state flow) = Some cur"
    and host: "\<not> inherited H ''complete''"
  shows "(\<not> isFromBot message \<and> authorId message = userId state \<and>
      \<not> isSessionExpired now state \<and>
      findNextState H (trim H (toLowerCase H (content message))) (transitions cur)
        = Inr (Some t) \<and>
      t \<noteq> [] \<longrightarrow>
      (conversations (snd (handleMessage H now message self)) (userId state) = None) =
        (t = ''complete'' \<and> map_of (states flow) t \<noteq> None)) \<and>
    (transitions cur = [] \<and>
      (\<forall>m\<in>set (messages_of events). \<not> isFromBot m \<and> authorId m = userId state) \<and>
      in_time (lastInteraction state) events \<longrightarrow>
      sent (handleEvents H events self) = sent self @
        map (\<lambda>m. (channelId m, Some ''I didn't understand that. Could you rephrase?''))
          (messages_of events) \<and>
      (\<exists>state'. conversations (handleEvents H events self) (userId state) = Some state' \<and>
         context' state' = context' state))"
proof (intro conjI impI)
  assume a: "\<not> isFromBot message \<and> authorId message = userId state \<and>
      \<not> isSessionExpired now state \<and>
      findNextState H (trim H (toLowerCase H (content message))) (transitions cur)
        = Inr (Some t) \<and>
      t \<noteq> []"
  then have sess': "conversations self (authorId message) = Some state" using sess by simp
  from a handleMessage_matched [OF _ sess' _ topic flow ok ne cur, where H = H and now = now and t = t]
  obtain ud where "handleMessage H now message self =
    transitionToNextState H message (authorId message)
         (state\<lparr>lastInteraction := now, userData := ud\<rparr>) flow t
         (self\<lparr>conversations := (conversations self)(authorId message \<mapsto>
            state\<lparr>lastInteraction := now, userData := ud\<rparr>)\<rparr>)"
    by blast
  with a host show "(conversations (snd (handleMessage H now message self)) (userId state) = None) =
        (t = ''complete'' \<and> map_of (states flow) t \<noteq> None)"
    by (auto simp: transitionToNextState_session)
next
  assume b: "transitions cur = [] \<and>
      (\<forall>m\<in>set (messages_of events). \<not> isFromBot m \<and> authorId m = userId state) \<and>
      in_time (lastInteraction state) events"
  then show "sent (handleEvents H events self) = sent self @
        map (\<lambda>m. (channelId m, Some ''I didn't understand that. Could you rephrase?''))
          (messages_of events)"
    using stuck_run [OF ok topic(2) _ sess topic(1) flow ne cur, where events = events and H = H]
    by blast
  from b show "\<exists>state'. conversations (handleEvents H events self) (userId state) = Some state' \<and>
         context' state' = context' state"
    using stuck_run [OF ok topic(2) _ sess topic(1) flow ne cur, where events = events and H = H]
    by blast
qed

theorem C9_completion_by_name_witness:
  "conversations (snd (handleMessage ascii_host 2000 (userMessage ''42'' ''bye'')
       (withSession (sessionAt ''42'' ''onboarding'' [''greeting'', ''askPurpose'', ''casualChat''] 1000)
          (ConversationalBot_new ascii_host)))) ''42'' = None \<and>
   conversations (snd (handleMessage ascii_host 2000 (userMessage ''42'' ''good'')
       (withSession (sessionAt ''42'' ''feedback'' [''rate''] 1000)
          (withFlow feedbackFlow (ConversationalBot_new ascii_host))))) ''42'' \<noteq> None \<and>
   sent (handleEvents ascii_host
        [MessageCreate 2000 (userMessage ''42'' ''hi''), CleanupTick 60000,
         MessageCreate 300000 (userMessage ''42'' ''what now?''), CleanupTick 600000]
       (withSession (sessionAt ''42'' ''feedback'' [''rate'', ''thanks''] 1000)
          (withFlow feedbackFlow (ConversationalBot_new ascii_host)))) =
     [(''general'', Some ''I didn't understand that. Could you rephrase?''),
      (''general'', Some ''I didn't understand that. Could you rephrase?'')] \<and>
   (\<exists>state'. conversations (handleEvents ascii_host
         [MessageCreate 2000 (userMessage ''42'' ''hi''), CleanupTick 60000,
          MessageCreate 300000 (userMessage ''42'' ''what now?''), CleanupTick 600000]
         (withSession (sessionAt ''42'' ''feedback'' [''rate'', ''thanks''] 1000)
            (withFlow feedbackFlow (ConversationalBot_new ascii_host)))) ''42'' = Some state' \<and>
      context' state' = [''rate'', ''thanks''])"
proof -
  let ?H = ascii_host
  let ?f = "createOnboardingFlow ascii_host"
  let ?chat = "\<lparr>prompt = ''That's nice! What would you like to talk about?'',
          transitions = [(''.*'', ''complete'')], action = None\<rparr>"
  let ?rate = "\<lparr>prompt = ''How was it?'',
          transitions = [(''(good|great)'', ''thanks''), (''bad'', ''apology''),
            (''odd'', ''toString''), (''skip'', []), (''fine'', ''comment'')],
          action = Some (\<lambda>state input. state\<lparr>userData := Some [(''answer'', input)]\<rparr>)\<rparr>"
  let ?thanks = "\<lparr>prompt = ''Glad to hear it: {answer}.'', transitions = [], action = None\<rparr>"
  let ?s1 = "sessionAt ''42'' ''onboarding'' [''greeting'', ''askPurpose'', ''casualChat''] 1000"
  let ?b1 = "withSession ?s1 (ConversationalBot_new ascii_host)"
  let ?s2 = "sessionAt ''42'' ''feedback'' [''rate''] 1000"
  let ?b2 = "withSession ?s2 (withFlow feedbackFlow (ConversationalBot_new ascii_host))"
  let ?s3 = "sessionAt ''42'' ''feedback'' [''rate'', ''thanks''] 1000"
  let ?b3 = "withSession ?s3 (withFlow feedbackFlow (ConversationalBot_new ascii_host))"
  let ?ev = "[MessageCreate 2000 (userMessage ''42'' ''hi''), CleanupTick 60000,
         MessageCreate 300000 (userMessage ''42'' ''what now?''), CleanupTick 600000]"
  have host: "\<not> inherited ascii_host ''complete''"
    by (simp add: ascii_host_def Object_prototype_names_def)

  have a1: "conversations ?b1 (userId ?s1) = Some ?s1" by (simp add: fixture_defs)
  have a2: "currentTopic ?s1 = Some ''onboarding''" "''onboarding'' \<noteq> []"
    by (simp_all add: sessionAt_def)
  have a3: "map_of (flows ?b1) ''onboarding'' = Some ?f"
    by (simp add: fixture_defs)
  have a4: "context' ?s1 \<noteq> []" by (simp add: sessionAt_def)
  have a5: "map_of (states ?f) (currentStateName ?s1 ?f) = Some ?chat"
    by (simp add: currentStateName_def sessionAt_def createOnboardingFlow_def)
  have a6: "findNextState ascii_host (trim ascii_host (toLowerCase ascii_host ''bye''))
      [(''.*'', ''complete'')] = Inr (Some ''complete'')" by code_simp
  have a7: "map_of (states ?f) ''complete'' \<noteq> None"
    by (simp add: createOnboardingFlow_def)
  have a8: "\<not> isSessionExpired 2000 ?s1"
    by (simp add: isSessionExpired_def sessionTimeout_def sessionAt_def)
  from C9_completion_by_name [OF a1 a2 a3 actions_ok_onboarding a4 a5 host, THEN conjunct1,
      of "userMessage ''42'' ''bye''" 2000 "''complete''"] a6 a7 a8
  have A: "conversations (snd (handleMessage ascii_host 2000 (userMessage ''42'' ''bye'') ?b1))
      ''42'' = None"
    by (simp add: userMessage_def sessionAt_def)

  have b1: "conversations ?b2 (userId ?s2) = Some ?s2" by (simp add: fixture_defs)
  have b2: "currentTopic ?s2 = Some ''feedback''" "''feedback'' \<noteq> []"
    by (simp_all add: sessionAt_def)
  have b3: "map_of (flows ?b2) ''feedback'' = Some feedbackFlow"
    by (simp add: flows_new_with_feedback)
  have b4: "context' ?s2 \<noteq> []" by (simp add: sessionAt_def)
  have b5: "map_of (states feedbackFlow) (currentStateName ?s2 feedbackFlow) = Some ?rate"
    by (simp add: currentStateName_def sessionAt_def feedbackFlow_def)
  have b6: "findNextState ascii_host (trim ascii_host (toLowerCase ascii_host ''good''))
      [(''(good|great)'', ''thanks''), (''bad'', ''apology''),
       (''odd'', ''toString''), (''skip'', []), (''fine'', ''comment'')] = Inr (Some ''thanks'')"
    by code_simp
  have b8: "\<not> isSessionExpired 2000 ?s2"
    by (simp add: isSessionExpired_def sessionTimeout_def sessionAt_def)
  from C9_completion_by_name [OF b1 b2 b3 actions_ok_feedback b4 b5 host, THEN conjunct1,
      of "userMessage ''42'' ''good''" 2000 "''thanks''"] b6 b8
  have B: "conversations (snd (handleMessage ascii_host 2000 (userMessage ''42'' ''good'') ?b2))
      ''42'' \<noteq> None"
    by (simp add: userMessage_def sessionAt_def)

  have c1: "conversations ?b3 (userId ?s3) = Some ?s3" by (simp add: fixture_defs)
  have c2: "currentTopic ?s3 = Some ''feedback''" by (simp add: sessionAt_def)
  have c3: "map_of (flows ?b3) ''feedback'' = Some feedbackFlow"
    by (simp add: flows_new_with_feedback)
  have c4: "context' ?s3 \<noteq> []" by (simp add: sessionAt_def)
  have c5: "map_of (states feedbackFlow) (currentStateName ?s3 feedbackFlow) = Some ?thanks"
    by (simp add: currentStateName_def sessionAt_def feedbackFlow_def)
  have c6: "transitions ?thanks = [] \<and>
      (\<forall>m\<in>set (messages_of ?ev). \<not> isFromBot m \<and> authorId m = userId ?s3) \<and>
      in_time (lastInteraction ?s3) ?ev"
    by (simp add: userMessage_def sessionAt_def sessionTimeout_def)
  from C9_completion_by_name [OF c1 c2 b2(2) c3 actions_ok_feedback c4 c5 host, THEN conjunct2,
      THEN mp, OF c6]
  have C: "sent (handleEvents ascii_host ?ev ?b3) = sent ?b3 @
        map (\<lambda>m. (channelId m, Some ''I didn't understand that. Could you rephrase?''))
          (messages_of ?ev) \<and>
      (\<exists>state'. conversations (handleEvents ascii_host ?ev ?b3) (userId ?s3) = Some state' \<and>
         context' state' = context' ?s3)"
    by simp
  have "sent ?b3 = []" by (simp add: fixture_defs)
  with C have C': "sent (handleEvents ascii_host ?ev ?b3) =
     [(''general'', Some ''I didn't understand that. Could you rephrase?''),
      (''general'', Some ''I didn't understand that. Could you rephrase?'')] \<and>
    (\<exists>state'. conversations (handleEvents ascii_host ?ev ?b3) ''42'' = Some state' \<and>
      context' state' = [''rate'', ''thanks''])"
    by (simp add: userMessage_def sessionAt_def)
  from A B C' show ?thesis by blast
qed

text \<open>
  Claim C5 asks that on every message that matches a transition the history grow or
  the session be deleted. A target that is the empty string is not taken for a next
  state: the transition \<open>skip\<close> of the feedback flow has such a target; the message
  \<open>skip\<close> matches it, is answered with the generic reply, and the session is kept with
  the history it had.
\<close>

theorem C5_counterexample:
  "RegExp_test ascii_host ''skip'' (trim ascii_host (toLowerCase ascii_host ''skip'')) = Inr True \<and>
   findNextState ascii_host (trim ascii_host (toLowerCase ascii_host ''skip''))
     [(''(good|great)'', ''thanks''), (''bad'', ''apology''),
      (''odd'', ''toString''), (''skip'', []), (''fine'', ''comment'')] = Inr (Some []) \<and>
   fst (handleMessage ascii_host 2000 (userMessage ''42'' ''skip'')
       (withSession (sessionAt ''42'' ''feedback'' [''rate''] 1000)
          (withFlow feedbackFlow (ConversationalBot_new ascii_host)))) = Done \<and>
   sent (snd (handleMessage ascii_host 2000 (userMessage ''42'' ''skip'')
       (withSession (sessionAt ''42'' ''feedback'' [''rate''] 1000)
          (withFlow feedbackFlow (ConversationalBot_new ascii_host))))) =
     [(''general'', Some ''I didn't understand that. Could you rephrase?'')] \<and>
   map_option context' (conversations (snd (handleMessage ascii_host 2000
       (userMessage ''42'' ''skip'')
       (withSession (sessionAt ''42'' ''feedback'' [''rate''] 1000)
          (withFlow feedbackFlow (ConversationalBot_new ascii_host))))) ''42'') =
     Some [''rate'']"
  by code_simp

text \<open>
  Claim C5, amended. While a session is alive, handling a message either deletes it or
  leaves it with a history that extends the old one, so never a shorter one; and when
  the message matches a transition whose target is not the empty string the session is
  deleted or its history is the old one with the target appended, one entry longer. The
  session is deleted when the matched target is the state \<open>complete\<close>, and when its
  current state name is neither a state of the flow nor the name of an inherited
  member.
\<close>

theorem C5_history_append_only:
  assumes sess: "conversations self (authorId message) = Some state"
    and live: "\<not> isSessionExpired now state"
    and ok: "\<forall>(n, f)\<in>set (flows self). actions_ok f"
  shows "(case conversations (snd (handleMessage H now message self)) (authorId message) of
        None \<Rightarrow> True
      | Some state' \<Rightarrow> prefix (context' state) (context' state') \<and>
          length (context' state) \<le> length (context' state')) \<and>
    (\<not> isFromBot message \<and> currentTopic state = Some flowName \<and> flowName \<noteq> [] \<and>
       map_of (flows self) flowName = Some flow \<and> context' state \<noteq> [] \<and>
       map_of (states flow) (currentStateName state flow) = Some cur \<and>
       findNextState H (trim H (toLowerCase H (content message))) (transitions cur)
         = Inr (Some t) \<and>
       t \<noteq> [] \<longrightarrow>
       (case conversations (snd (handleMessage H now message self)) (authorId message) of
          None \<Rightarrow> True
        | Some state' \<Rightarrow> context' state' = context' state @ [t] \<and>
            length (context' state') = Suc (length (context' state))) \<and>
       (userId state = authorId message \<and> t = ''complete'' \<and> map_of (states flow) t \<noteq> None \<longrightarrow>
          conversations (snd (handleMessage H now message self)) (authorId message) = None)) \<and>
    (\<not> isFromBot message \<and> userId state = authorId message \<and>
       currentTopic state = Some flowName \<and> flowName \<noteq> [] \<and>
       map_of (flows self) flowName = Some flow \<and>
       getProperty H (states flow) (currentStateName state flow) = Undefined \<longrightarrow>
       conversations (snd (handleMessage H now message self)) (authorId message) = None)"
proof (intro conjI impI)
  from handleMessage_history [OF sess live ok, of H]
  show "case conversations (snd (handleMessage H now message self)) (authorId message) of
        None \<Rightarrow> True
      | Some state' \<Rightarrow> prefix (context' state) (context' state') \<and>
          length (context' state) \<le> length (context' state')"
    by (auto split: option.splits dest: prefix_length_le)
next
  assume a: "\<not> isFromBot message \<and> currentTopic state = Some flowName \<and> flowName \<noteq> [] \<and>
       map_of (flows self) flowName = Some flow \<and> context' state \<noteq> [] \<and>
       map_of (states flow) (currentStateName state flow) = Some cur \<and>
       findNextState H (trim H (toLowerCase H (content message))) (transitions cur)
         = Inr (Some t) \<and>
       t \<noteq> []"
  then have "(flowName, flow) \<in> set (flows self)" by (auto dest: map_of_SomeD)
  with ok have okf: "actions_ok flow" by auto
  from a handleMessage_matched [OF _ sess live _ _ _ okf, where flowName = flowName
      and cur = cur and t = t and H = H]
  obtain ud where hm: "handleMessage H now message self =
    transitionToNextState H message (authorId message)
         (state\<lparr>lastInteraction := now, userData := ud\<rparr>) flow t
         (self\<lparr>conversations := (conversations self)(authorId message \<mapsto>
            state\<lparr>lastInteraction := now, userData := ud\<rparr>)\<rparr>)"
    by blast
  then show "case conversations (snd (handleMessage H now message self)) (authorId message) of
          None \<Rightarrow> True
        | Some state' \<Rightarrow> context' state' = context' state @ [t] \<and>
            length (context' state') = Suc (length (context' state))"
    using transitionToNextState_history [of H message "authorId message"
              "state\<lparr>lastInteraction := now, userData := ud\<rparr>" flow t
              "self\<lparr>conversations := (conversations self)(authorId message \<mapsto>
                        state\<lparr>lastInteraction := now, userData := ud\<rparr>)\<rparr>"]
    by auto
  assume b: "userId state = authorId message \<and> t = ''complete'' \<and>
    map_of (states flow) t \<noteq> None"
  then have t: "t = ''complete''" by blast
  from b have "userId (state\<lparr>lastInteraction := now, userData := ud\<rparr>) = authorId message"
    "map_of (states flow) ''complete'' \<noteq> None" by auto
  from transitionToNextState_complete [OF this, of H message
      "self\<lparr>conversations := (conversations self)(authorId message \<mapsto>
                        state\<lparr>lastInteraction := now, userData := ud\<rparr>)\<rparr>"]
  show "conversations (snd (handleMessage H now message self)) (authorId message) = None"
    unfolding hm t .
next
  assume c: "\<not> isFromBot message \<and> userId state = authorId message \<and>
       currentTopic state = Some flowName \<and> flowName \<noteq> [] \<and>
       map_of (flows self) flowName = Some flow \<and>
       getProperty H (states flow) (currentStateName state flow) = Undefined"
  with handleMessage_confused [OF _ sess _ live, where flowName = flowName and flow = flow
      and H = H]
  show "conversations (snd (handleMessage H now message self)) (authorId message) = None"
    by simp
qed

theorem C5_history_append_only_witness:
  "(\<exists>state'. conversations (snd (handleMessage ascii_host 2000 (userMessage ''42'' ''Alice'')
       (withSession (sessionAt ''42'' ''onboarding'' [''greeting''] 1000)
          (ConversationalBot_new ascii_host))))
       ''42'' = Some state' \<and>
     prefix [''greeting''] (context' state') \<and>
     context' state' = [''greeting'', ''askPurpose'']) \<and>
   conversations (snd (handleMessage ascii_host 2000 (userMessage ''42'' ''bye'')
       (withSession (sessionAt ''42'' ''onboarding'' [''greeting'', ''askPurpose'', ''casualChat''] 1000)
          (ConversationalBot_new ascii_host)))) ''42'' = None \<and>
   conversations (snd (handleMessage ascii_host 2000 (userMessage ''42'' ''anyone there?'')
       (withSession (sessionAt ''42'' ''onboarding'' [''greeting'', ''farewell''] 1000)
          (ConversationalBot_new ascii_host)))) ''42'' = None"
proof -
  let ?f = "createOnboardingFlow ascii_host"
  let ?m = "userMessage ''42'' ''Alice''"
  let ?s = "sessionAt ''42'' ''onboarding'' [''greeting''] 1000"
  let ?b = "withSession ?s (ConversationalBot_new ascii_host)"
  let ?cur = "\<lparr>prompt = [CHR 0xF0, CHR 0x9F, CHR 0x91, CHR 0x8B] @
            '' Hello! I'm your conversational assistant. What's your name?'',
          transitions = [(''.*'', ''askPurpose'')],
          action = Some (\<lambda>state input.
            state\<lparr>userData := Some [(''name'', trim ascii_host input)]\<rparr>)\<rparr>"
  have 1: "conversations ?b (authorId ?m) = Some ?s" by (simp add: fixture_defs)
  have 2: "\<not> isSessionExpired 2000 ?s"
    by (simp add: isSessionExpired_def sessionTimeout_def sessionAt_def)
  have 3: "\<forall>(n, f)\<in>set (flows ?b). actions_ok f"
    by (simp add: fixture_defs actions_ok_onboarding)
  have m: "findNextState ascii_host (trim ascii_host (toLowerCase ascii_host ''Alice''))
      [(''.*'', ''askPurpose'')] = Inr (Some ''askPurpose'')" by code_simp
  have a4: "\<not> isFromBot ?m \<and> currentTopic ?s = Some ''onboarding'' \<and> ''onboarding'' \<noteq> [] \<and>
       map_of (flows ?b) ''onboarding'' = Some ?f \<and> context' ?s \<noteq> [] \<and>
       map_of (states ?f) (currentStateName ?s ?f) = Some ?cur \<and>
       findNextState ascii_host (trim ascii_host (toLowerCase ascii_host (content ?m)))
         (transitions ?cur) = Inr (Some ''askPurpose'') \<and>
       ''askPurpose'' \<noteq> []"
    using m by (simp add: fixture_defs currentStateName_def createOnboardingFlow_def)
  have host: "\<not> inherited ascii_host ''complete''"
    by (simp add: ascii_host_def Object_prototype_names_def)
  from a4 have hyp: "\<not> isFromBot ?m" "currentTopic ?s = Some ''onboarding''" "''onboarding'' \<noteq> []"
    "map_of (flows ?b) ''onboarding'' = Some ?f" "context' ?s \<noteq> []"
    "map_of (states ?f) (currentStateName ?s ?f) = Some ?cur"
    "findNextState ascii_host (trim ascii_host (toLowerCase ascii_host (content ?m)))
         (transitions ?cur) = Inr (Some ''askPurpose'')" "''askPurpose'' \<noteq> []"
    by blast+
  from handleMessage_matched [OF hyp(1) 1 2 hyp(2,3,4) actions_ok_onboarding hyp(5,6,7,8)]
  obtain ud where "handleMessage ascii_host 2000 ?m ?b =
    transitionToNextState ascii_host ?m (authorId ?m)
         (?s\<lparr>lastInteraction := 2000, userData := ud\<rparr>) ?f ''askPurpose''
         (?b\<lparr>conversations := (conversations ?b)(authorId ?m \<mapsto>
            ?s\<lparr>lastInteraction := 2000, userData := ud\<rparr>)\<rparr>)"
    by blast
  then have alive: "conversations (snd (handleMessage ascii_host 2000 ?m ?b)) ''42'' \<noteq> None"
    using transitionToNextState_session [OF _ host, of "?s\<lparr>lastInteraction := 2000, userData := ud\<rparr>"
        "authorId ?m" ?m ?f "''askPurpose''"]
    by (simp add: userMessage_def sessionAt_def)
  from C5_history_append_only [OF 1 2 3, THEN conjunct2, THEN conjunct1, THEN mp, OF a4,
      THEN conjunct1]
    C5_history_append_only [OF 1 2 3, THEN conjunct1, of ascii_host] alive
  have A: "\<exists>state'. conversations (snd (handleMessage ascii_host 2000 ?m ?b)) ''42'' = Some state' \<and>
     prefix [''greeting''] (context' state') \<and>
     context' state' = [''greeting'', ''askPurpose'']"
    by (auto simp: fixture_defs)

  let ?m2 = "userMessage ''42'' ''bye''"
  let ?s2 = "sessionAt ''42'' ''onboarding'' [''greeting'', ''askPurpose'', ''casualChat''] 1000"
  let ?b2 = "withSession ?s2 (ConversationalBot_new ascii_host)"
  let ?chat = "\<lparr>prompt = ''That's nice! What would you like to talk about?'',
          transitions = [(''.*'', ''complete'')], action = None\<rparr>"
  have b1: "conversations ?b2 (authorId ?m2) = Some ?s2" by (simp add: fixture_defs)
  have b2: "\<not> isSessionExpired 2000 ?s2"
    by (simp add: isSessionExpired_def sessionTimeout_def sessionAt_def)
  have b3: "\<forall>(n, f)\<in>set (flows ?b2). actions_ok f"
    by (simp add: fixture_defs actions_ok_onboarding)
  have "findNextState ascii_host (trim ascii_host (toLowerCase ascii_host ''bye''))
      [(''.*'', ''complete'')] = Inr (Some ''complete'')" by code_simp
  then have b4: "\<not> isFromBot ?m2 \<and> currentTopic ?s2 = Some ''onboarding'' \<and> ''onboarding'' \<noteq> [] \<and>
       map_of (flows ?b2) ''onboarding'' = Some ?f \<and> context' ?s2 \<noteq> [] \<and>
       map_of (states ?f) (currentStateName ?s2 ?f) = Some ?chat \<and>
       findNextState ascii_host (trim ascii_host (toLowerCase ascii_host (content ?m2)))
         (transitions ?chat) = Inr (Some ''complete'') \<and>
       ''complete'' \<noteq> []"
    by (simp add: fixture_defs currentStateName_def createOnboardingFlow_def)
  have b5: "userId ?s2 = authorId ?m2 \<and> ''complete'' = ''complete'' \<and>
      map_of (states ?f) ''complete'' \<noteq> None"
    by (simp add: fixture_defs createOnboardingFlow_def)
  from C5_history_append_only [OF b1 b2 b3, THEN conjunct2, THEN conjunct1, THEN mp, OF b4,
      THEN conjunct2, THEN mp, OF b5]
  have B: "conversations (snd (handleMessage ascii_host 2000 ?m2 ?b2)) ''42'' = None"
    by (simp add: userMessage_def)

  let ?m3 = "userMessage ''42'' ''anyone there?''"
  let ?s3 = "sessionAt ''42'' ''onboarding'' [''greeting'', ''farewell''] 1000"
  let ?b3 = "withSession ?s3 (ConversationalBot_new ascii_host)"
  have c1: "conversations ?b3 (authorId ?m3) = Some ?s3" by (simp add: fixture_defs)
  have c2: "\<not> isSessionExpired 2000 ?s3"
    by (simp add: isSessionExpired_def sessionTimeout_def sessionAt_def)
  have c3: "\<forall>(n, f)\<in>set (flows ?b3). actions_ok f"
    by (simp add: fixture_defs actions_ok_onboarding)
  have "getProperty ascii_host (states ?f) ''farewell'' = Undefined"
    by (simp add: getProperty_def createOnboardingFlow_def ascii_host_def
        Object_prototype_names_def)
  then have c4: "\<not> isFromBot ?m3 \<and> userId ?s3 = authorId ?m3 \<and>
       currentTopic ?s3 = Some ''onboarding'' \<and> ''onboarding'' \<noteq> [] \<and>
       map_of (flows ?b3) ''onboarding'' = Some ?f \<and>
       getProperty ascii_host (states ?f) (currentStateName ?s3 ?f) = Undefined"
    by (simp add: fixture_defs currentStateName_def)
  from C5_history_append_only [OF c1 c2 c3, THEN conjunct2, THEN conjunct2, THEN mp, OF c4]
  have C: "conversations (snd (handleMessage ascii_host 2000 ?m3 ?b3)) ''42'' = None"
    by (simp add: userMessage_def)
  from A B C show ?thesis by blast
qed

text \<open>
  Claim C1 asks that the patterns be tried in the order of their declaration. The
  matcher goes through \<open>Object.entries(transitions)\<close>, which lists the keys that are
  array indices before all others: in the table \<open>{"yes": "A", "1": "B"}\<close> the pattern \<open>yes\<close>
  is declared first and matches the input \<open>1 yes\<close>, and the matcher returns \<open>B\<close>.
\<close>

theorem C1_counterexample:
  "RegExp_test ascii_host ''yes'' ''1 yes'' = Inr True \<and>
   findNextState ascii_host ''1 yes'' [(''yes'', ''A''), (''1'', ''B'')] = Inr (Some ''B'')"
  by code_simp

text \<open>
  Claim C1, amended. The matcher tries the patterns in the order in which
  \<open>Object.entries\<close> lists the table and returns the target of the first pattern whose
  test on the input succeeds; that order is the order of declaration when no pattern is
  an array index. When no test succeeds the result is the target of the pattern \<open>.*\<close>,
  none when the table has no such pattern; a table with the pattern \<open>.*\<close> whose other
  patterns all fail gives the target of \<open>.*\<close>. The input that the engine hands to the
  matcher is the content of the message, lower-cased and then trimmed: a live session
  past its first message is answered with the generic reply, its history unchanged,
  when the matcher finds none for that input, and is deleted or has the target appended
  to its history when the matcher finds a target that is not the empty string. On a host
  that is right on ASCII text, the table \<open>{"(1|yes)": "A", ".*": "B"}\<close> gives \<open>A\<close> for the
  contents \<open>1\<close>, \<open>yes please\<close> and \<open>  YES please \<close> and \<open>B\<close> for \<open>nah\<close>.
\<close>

theorem C1_first_match_in_enumeration_order:
  "(Object_entries ts = pre @ (p, t) # post \<and>
      (\<forall>q\<in>fst ` set pre. RegExp_test H q userInput = Inr False) \<and>
      RegExp_test H p userInput = Inr True \<longrightarrow>
      findNextState H userInput ts = Inr (Some t)) \<and>
   ((\<forall>key\<in>fst ` set ts. \<not> isArrayIndex key) \<longrightarrow> Object_entries ts = ts) \<and>
   ((\<forall>q\<in>fst ` set ts. RegExp_test H q userInput = Inr False) \<longrightarrow>
      findNextState H userInput ts = Inr (map_of ts ''.*'')) \<and>
   (distinct (map fst ts) \<and> (''.*'', t) \<in> set ts \<and>
      RegExp_test H ''.*'' userInput = Inr matched \<and>
      (\<forall>q\<in>fst ` set ts. q \<noteq> ''.*'' \<longrightarrow> RegExp_test H q userInput = Inr False) \<longrightarrow>
      findNextState H userInput ts = Inr (Some t)) \<and>
   (\<not> isFromBot message \<and> conversations self (authorId message) = Some state \<and>
      \<not> isSessionExpired now state \<and> currentTopic state = Some flowName \<and> flowName \<noteq> [] \<and>
      map_of (flows self) flowName = Some flow \<and> actions_ok flow \<and> context' state \<noteq> [] \<and>
      map_of (states flow) (currentStateName state flow) = Some cur \<longrightarrow>
      (findNextState H (trim H (toLowerCase H (content message))) (transitions cur) = Inr None
         \<longrightarrow>
         fst (handleMessage H now message self) = Done \<and>
         sent (snd (handleMessage H now message self)) = sent self @
           [(channelId message, Some ''I didn't understand that. Could you rephrase?'')] \<and>
         (\<exists>state'. conversations (snd (handleMessage H now message self)) (authorId message)
              = Some state' \<and>
            context' state' = context' state)) \<and>
      (findNextState H (trim H (toLowerCase H (content message))) (transitions cur)
           = Inr (Some target) \<and> target \<noteq> []
         \<longrightarrow>
         conversations (snd (handleMessage H now message self)) (authorId message) = None \<or>
         (\<exists>state'. conversations (snd (handleMessage H now message self)) (authorId message)
              = Some state' \<and>
            context' state' = context' state @ [target]))) \<and>
   (host_ok H \<longrightarrow>
      findNextState H (trim H (toLowerCase H ''1'')) [(''(1|yes)'', ''A''), (''.*'', ''B'')]
        = Inr (Some ''A'') \<and>
      findNextState H (trim H (toLowerCase H ''yes please''))
          [(''(1|yes)'', ''A''), (''.*'', ''B'')]
        = Inr (Some ''A'') \<and>
      findNextState H (trim H (toLowerCase H ''  YES please ''))
          [(''(1|yes)'', ''A''), (''.*'', ''B'')]
        = Inr (Some ''A'') \<and>
      findNextState H (trim H (toLowerCase H ''nah'')) [(''(1|yes)'', ''A''), (''.*'', ''B'')]
        = Inr (Some ''B''))"
proof (intro conjI impI)
  assume "Object_entries ts = pre @ (p, t) # post \<and>
      (\<forall>q\<in>fst ` set pre. RegExp_test H q userInput = Inr False) \<and>
      RegExp_test H p userInput = Inr True"
  then show "findNextState H userInput ts = Inr (Some t)"
    using findNextState_first [of ts pre p t post H userInput] by blast
next
  assume "\<forall>key\<in>fst ` set ts. \<not> isArrayIndex key"
  then show "Object_entries ts = ts" by (rule Object_entries_plain)
next
  assume "\<forall>q\<in>fst ` set ts. RegExp_test H q userInput = Inr False"
  then show "findNextState H userInput ts = Inr (map_of ts ''.*'')"
    by (rule findNextState_none)
next
  assume "distinct (map fst ts) \<and> (''.*'', t) \<in> set ts \<and>
      RegExp_test H ''.*'' userInput = Inr matched \<and>
      (\<forall>q\<in>fst ` set ts. q \<noteq> ''.*'' \<longrightarrow> RegExp_test H q userInput = Inr False)"
  then show "findNextState H userInput ts = Inr (Some t)"
    using findNextState_catch_all [of ts t H userInput matched] by blast
next
  assume a: "\<not> isFromBot message \<and> conversations self (authorId message) = Some state \<and>
      \<not> isSessionExpired now state \<and> currentTopic state = Some flowName \<and> flowName \<noteq> [] \<and>
      map_of (flows self) flowName = Some flow \<and> actions_ok flow \<and> context' state \<noteq> [] \<and>
      map_of (states flow) (currentStateName state flow) = Some cur"
  then have h: "\<not> isFromBot message" "conversations self (authorId message) = Some state"
    "\<not> isSessionExpired now state" "currentTopic state = Some flowName" "flowName \<noteq> []"
    "map_of (flows self) flowName = Some flow" "actions_ok flow" "context' state \<noteq> []"
    "map_of (states flow) (currentStateName state flow) = Some cur"
    by blast+
  {
    assume "findNextState H (trim H (toLowerCase H (content message))) (transitions cur)
      = Inr None"
    then have none:
      "findNextState H (trim H (toLowerCase H (content message))) (transitions cur) = Inr None \<or>
       findNextState H (trim H (toLowerCase H (content message))) (transitions cur)
         = Inr (Some [])"
      by (rule disjI1)
    from handleMessage_unmatched [OF h none]
    obtain ud where u: "handleMessage H now message self =
      (Done, self\<lparr>conversations := (conversations self)(authorId message \<mapsto>
                    state\<lparr>lastInteraction := now, userData := ud\<rparr>),
                 sent := sent self @
                   [(channelId message, Some ''I didn't understand that. Could you rephrase?'')]\<rparr>)"
      by blast
    from u show "fst (handleMessage H now message self) = Done" by simp
    from u show "sent (snd (handleMessage H now message self)) = sent self @
           [(channelId message, Some ''I didn't understand that. Could you rephrase?'')]"
      by simp
    from u show "\<exists>state'. conversations (snd (handleMessage H now message self))
        (authorId message) = Some state' \<and> context' state' = context' state"
      by simp
  }
  {
    assume m: "findNextState H (trim H (toLowerCase H (content message))) (transitions cur)
           = Inr (Some target) \<and> target \<noteq> []"
    then have m': "findNextState H (trim H (toLowerCase H (content message))) (transitions cur)
           = Inr (Some target)" "target \<noteq> []" by blast+
    from handleMessage_matched [OF h m']
    obtain ud where hm: "handleMessage H now message self =
      transitionToNextState H message (authorId message)
         (state\<lparr>lastInteraction := now, userData := ud\<rparr>) flow target
         (self\<lparr>conversations := (conversations self)(authorId message \<mapsto>
            state\<lparr>lastInteraction := now, userData := ud\<rparr>)\<rparr>)"
      by blast
    show "conversations (snd (handleMessage H now message self)) (authorId message) = None \<or>
         (\<exists>state'. conversations (snd (handleMessage H now message self)) (authorId message)
              = Some state' \<and>
            context' state' = context' state @ [target])"
      unfolding hm
      using transitionToNextState_history [of H message "authorId message"
              "state\<lparr>lastInteraction := now, userData := ud\<rparr>" flow target
              "self\<lparr>conversations := (conversations self)(authorId message \<mapsto>
                        state\<lparr>lastInteraction := now, userData := ud\<rparr>)\<rparr>"]
      by auto
  }
next
  assume h: "host_ok H"
  have p: "ascii ''(1|yes)''" "ascii ''.*''" by code_simp+
  have e: "Object_entries [(''(1|yes)'', ''A''), (''.*'', ''B'')] =
      [(''(1|yes)'', ''A''), (''.*'', ''B'')]" by code_simp
  have s1: "ascii ''1''" "ascii (ascii_toLowerCase ''1'')"
    "ascii_trim (ascii_toLowerCase ''1'') = ''1''"
    "fragment_test ''(1|yes)'' ''1'' = Some True" "fragment_test ''.*'' ''1'' = Some True"
    by code_simp+
  from claim_table [OF h s1(1,2,3,1) p e s1(4,5)]
  show "findNextState H (trim H (toLowerCase H ''1'')) [(''(1|yes)'', ''A''), (''.*'', ''B'')]
        = Inr (Some ''A'')" by simp
  have s2: "ascii ''yes please''" "ascii (ascii_toLowerCase ''yes please'')"
    "ascii_trim (ascii_toLowerCase ''yes please'') = ''yes please''"
    "fragment_test ''(1|yes)'' ''yes please'' = Some True"
    "fragment_test ''.*'' ''yes please'' = Some True"
    by code_simp+
  from claim_table [OF h s2(1,2,3,1) p e s2(4,5)]
  show "findNextState H (trim H (toLowerCase H ''yes please''))
          [(''(1|yes)'', ''A''), (''.*'', ''B'')]
        = Inr (Some ''A'')" by simp
  have s3: "ascii ''  YES please ''" "ascii (ascii_toLowerCase ''  YES please '')"
    "ascii_trim (ascii_toLowerCase ''  YES please '') = ''yes please''"
    by code_simp+
  from claim_table [OF h s3(1,2,3) s2(1) p e s2(4,5)]
  show "findNextState H (trim H (toLowerCase H ''  YES please ''))
          [(''(1|yes)'', ''A''), (''.*'', ''B'')]
        = Inr (Some ''A'')" by simp
  have s4: "ascii ''nah''" "ascii (ascii_toLowerCase ''nah'')"
    "ascii_trim (ascii_toLowerCase ''nah'') = ''nah''"
    "fragment_test ''(1|yes)'' ''nah'' = Some False" "fragment_test ''.*'' ''nah'' = Some True"
    by code_simp+
  from claim_table [OF h s4(1,2,3,1) p e s4(4,5)]
  show "findNextState H (trim H (toLowerCase H ''nah'')) [(''(1|yes)'', ''A''), (''.*'', ''B'')]
        = Inr (Some ''B'')" by simp
qed

theorem C1_first_match_in_enumeration_order_witness:
  "findNextState ascii_host ''yes please''
     [(''no'', ''N''), (''(1|yes)'', ''A''), (''.*'', ''B'')] = Inr (Some ''A'') \<and>
   Object_entries [(''(1|yes)'', ''A''), (''.*'', ''B'')] =
     [(''(1|yes)'', ''A''), (''.*'', ''B'')] \<and>
   findNextState ascii_host ''nah'' [(''(1|yes)'', ''A'')] = Inr None \<and>
   findNextState ascii_host ''nah'' [(''(1|yes)'', ''A''), (''.*'', ''B'')] = Inr (Some ''B'') \<and>
   sent (snd (handleMessage ascii_host 2000 (userMessage ''42'' ''   '')
       (withSession (sessionAt ''42'' ''feedback'' [''rate'', ''comment''] 1000)
          (withFlow feedbackFlow (ConversationalBot_new ascii_host))))) =
     [(''general'', Some ''I didn't understand that. Could you rephrase?'')] \<and>
   (\<exists>state'. conversations (snd (handleMessage ascii_host 2000 (userMessage ''42'' '' Fine! '')
       (withSession (sessionAt ''42'' ''feedback'' [''rate''] 1000)
          (withFlow feedbackFlow (ConversationalBot_new ascii_host))))) ''42'' = Some state' \<and>
      context' state' = [''rate'', ''comment'']) \<and>
   findNextState ascii_host (trim ascii_host (toLowerCase ascii_host ''  YES please ''))
     [(''(1|yes)'', ''A''), (''.*'', ''B'')] = Inr (Some ''A'')"
proof -
  let ?T3 = "[(''no'', ''N''), (''(1|yes)'', ''A''), (''.*'', ''B'')]"
  let ?T = "[(''(1|yes)'', ''A''), (''.*'', ''B'')]"
  let ?T1 = "[(''(1|yes)'', ''A'')]"
  have e3: "Object_entries ?T3 = [(''no'', ''N'')] @ (''(1|yes)'', ''A'') # [(''.*'', ''B'')]"
    by code_simp
  have r1: "RegExp_test ascii_host ''no'' ''yes please'' = Inr False" by code_simp
  have r2: "RegExp_test ascii_host ''(1|yes)'' ''yes please'' = Inr True" by code_simp
  have h1: "Object_entries ?T3 = [(''no'', ''N'')] @ (''(1|yes)'', ''A'') # [(''.*'', ''B'')] \<and>
      (\<forall>q\<in>fst ` set [(''no'', ''N'')]. RegExp_test ascii_host q ''yes please'' = Inr False) \<and>
      RegExp_test ascii_host ''(1|yes)'' ''yes please'' = Inr True"
    using e3 r1 r2 by simp
  have A: "findNextState ascii_host ''yes please'' ?T3 = Inr (Some ''A'')"
    by (rule C1_first_match_in_enumeration_order [where ts = ?T3 and pre = "[(''no'', ''N'')]"
        and p = "''(1|yes)''" and t = "''A''" and post = "[(''.*'', ''B'')]"
        and H = ascii_host and userInput = "''yes please''", THEN conjunct1, THEN mp, OF h1])

  have n1: "\<not> isArrayIndex ''(1|yes)''" by code_simp
  have n2: "\<not> isArrayIndex ''.*''" by code_simp
  have h2: "\<forall>key\<in>fst ` set ?T. \<not> isArrayIndex key" using n1 n2 by simp
  have B: "Object_entries ?T = ?T"
    by (rule C1_first_match_in_enumeration_order [where ts = ?T,
        THEN conjunct2, THEN conjunct1, THEN mp, OF h2])

  have r3: "RegExp_test ascii_host ''(1|yes)'' ''nah'' = Inr False" by code_simp
  have h3: "\<forall>q\<in>fst ` set ?T1. RegExp_test ascii_host q ''nah'' = Inr False"
    using r3 by simp
  have "findNextState ascii_host ''nah'' ?T1 = Inr (map_of ?T1 ''.*'')"
    by (rule C1_first_match_in_enumeration_order [where ts = ?T1 and H = ascii_host
        and userInput = "''nah''",
        THEN conjunct2, THEN conjunct2, THEN conjunct1, THEN mp, OF h3])
  then have C: "findNextState ascii_host ''nah'' ?T1 = Inr None" by simp

  have r4: "RegExp_test ascii_host ''.*'' ''nah'' = Inr True" by code_simp
  have h4: "distinct (map fst ?T) \<and> (''.*'', ''B'') \<in> set ?T \<and>
      RegExp_test ascii_host ''.*'' ''nah'' = Inr True \<and>
      (\<forall>q\<in>fst ` set ?T. q \<noteq> ''.*'' \<longrightarrow> RegExp_test ascii_host q ''nah'' = Inr False)"
    using r3 r4 by simp
  have D: "findNextState ascii_host ''nah'' ?T = Inr (Some ''B'')"
    by (rule C1_first_match_in_enumeration_order [where ts = ?T and t = "''B''"
        and H = ascii_host and userInput = "''nah''" and matched = True,
        THEN conjunct2, THEN conjunct2, THEN conjunct2, THEN conjunct1, THEN mp, OF h4])

  let ?comment = "\<lparr>prompt = ''Any comment?'', transitions = [(''.'', ''thanks'')],
    action = None\<rparr>"
  let ?rate = "\<lparr>prompt = ''How was it?'',
          transitions = [(''(good|great)'', ''thanks''), (''bad'', ''apology''),
            (''odd'', ''toString''), (''skip'', []), (''fine'', ''comment'')],
          action = Some (\<lambda>state input. state\<lparr>userData := Some [(''answer'', input)]\<rparr>)\<rparr>"
  let ?m = "userMessage ''42'' ''   ''"
  let ?s = "sessionAt ''42'' ''feedback'' [''rate'', ''comment''] 1000"
  let ?b = "withSession ?s (withFlow feedbackFlow (ConversationalBot_new ascii_host))"
  have flow: "map_of (flows ?b) ''feedback'' = Some feedbackFlow"
    by (simp add: flows_new_with_feedback)
  have h5: "\<not> isFromBot ?m \<and> conversations ?b (authorId ?m) = Some ?s \<and>
      \<not> isSessionExpired 2000 ?s \<and> currentTopic ?s = Some ''feedback'' \<and> ''feedback'' \<noteq> [] \<and>
      map_of (flows ?b) ''feedback'' = Some feedbackFlow \<and> actions_ok feedbackFlow \<and>
      context' ?s \<noteq> [] \<and>
      map_of (states feedbackFlow) (currentStateName ?s feedbackFlow) = Some ?comment"
    using flow actions_ok_feedback
    by (simp add: fixture_defs isSessionExpired_def sessionTimeout_def currentStateName_def
        feedbackFlow_def)
  have "findNextState ascii_host (trim ascii_host (toLowerCase ascii_host ''   ''))
      [(''.'', ''thanks'')] = Inr None" by code_simp
  then have none: "findNextState ascii_host
      (trim ascii_host (toLowerCase ascii_host (content ?m))) (transitions ?comment) = Inr None"
    by (simp add: userMessage_def)
  have "sent ?b = []" by (simp add: fixture_defs)
  with C1_first_match_in_enumeration_order [where message = ?m and self = ?b and state = ?s
        and now = 2000 and flowName = "''feedback''" and flow = feedbackFlow
        and cur = ?comment and H = ascii_host,
        THEN conjunct2, THEN conjunct2, THEN conjunct2, THEN conjunct2, THEN conjunct1,
        THEN mp, OF h5, THEN conjunct1, THEN mp, OF none, THEN conjunct2, THEN conjunct1]
  have E: "sent (snd (handleMessage ascii_host 2000 ?m ?b)) =
     [(''general'', Some ''I didn't understand that. Could you rephrase?'')]"
    by (simp add: userMessage_def)

  let ?m2 = "userMessage ''42'' '' Fine! ''"
  let ?s2 = "sessionAt ''42'' ''feedback'' [''rate''] 1000"
  let ?b2 = "withSession ?s2 (withFlow feedbackFlow (ConversationalBot_new ascii_host))"
  have flow2: "map_of (flows ?b2) ''feedback'' = Some feedbackFlow"
    by (simp add: flows_new_with_feedback)
  have h6: "\<not> isFromBot ?m2 \<and> conversations ?b2 (authorId ?m2) = Some ?s2 \<and>
      \<not> isSessionExpired 2000 ?s2 \<and> currentTopic ?s2 = Some ''feedback'' \<and> ''feedback'' \<noteq> [] \<and>
      map_of (flows ?b2) ''feedback'' = Some feedbackFlow \<and> actions_ok feedbackFlow \<and>
      context' ?s2 \<noteq> [] \<and>
      map_of (states feedbackFlow) (currentStateName ?s2 feedbackFlow) = Some ?rate"
    using flow2 actions_ok_feedback
    by (simp add: fixture_defs isSessionExpired_def sessionTimeout_def currentStateName_def
        feedbackFlow_def)
  have "findNextState ascii_host (trim ascii_host (toLowerCase ascii_host '' Fine! ''))
      [(''(good|great)'', ''thanks''), (''bad'', ''apology''),
       (''odd'', ''toString''), (''skip'', []), (''fine'', ''comment'')] = Inr (Some ''comment'')"
    by code_simp
  then have some: "findNextState ascii_host
      (trim ascii_host (toLowerCase ascii_host (content ?m2))) (transitions ?rate)
        = Inr (Some ''comment'') \<and> ''comment'' \<noteq> []"
    by (simp add: userMessage_def)
  have alive: "map_option context' (conversations (snd (handleMessage ascii_host 2000 ?m2 ?b2))
      ''42'') = Some [''rate'', ''comment'']"
    by code_simp
  from C1_first_match_in_enumeration_order [where message = ?m2 and self = ?b2 and state = ?s2
        and now = 2000 and flowName = "''feedback''" and flow = feedbackFlow
        and cur = ?rate and H = ascii_host and target = "''comment''",
        THEN conjunct2, THEN conjunct2, THEN conjunct2, THEN conjunct2, THEN conjunct1,
        THEN mp, OF h6, THEN conjunct2, THEN mp, OF some] alive
  have F: "\<exists>state'. conversations (snd (handleMessage ascii_host 2000 ?m2 ?b2)) ''42''
      = Some state' \<and> context' state' = [''rate'', ''comment'']"
    by (auto simp: userMessage_def sessionAt_def)

  have G: "findNextState ascii_host (trim ascii_host (toLowerCase ascii_host ''  YES please ''))
     ?T = Inr (Some ''A'')"
    by (rule C1_first_match_in_enumeration_order [where H = ascii_host,
        THEN conjunct2, THEN conjunct2, THEN conjunct2, THEN conjunct2, THEN conjunct2,
        THEN mp, OF host_ok_ascii_host, THEN conjunct2, THEN conjunct2, THEN conjunct1])
  from A B C D E F G show ?thesis by blast
qed

end
